theory Spec2Isabelle
  imports Main "HOL-Library.Word"
begin

section \<open>The ngrok add-on of minikube: credential gate and configuration wizard\<close>

text \<open>
  The development embeds \<^verbatim>\<open>pkg/addons/addons_ngrok.go\<close> (the credential gate and the
  enable-or-disable entry point) and the \<^verbatim>\<open>"ngrok"\<close> case of
  \<^verbatim>\<open>cmd/minikube/cmd/config/configure.go\<close> (the configuration wizard with its two loops).
  The program talks to three collaborators: the cluster (package \<^verbatim>\<open>service\<close>), the
  operator's terminal, and the file system. All three are made explicit in one record
  \<open>world\<close> that every function takes and returns; what the program does to them, in
  program order, is appended to the field \<open>trace\<close>.
\<close>

subsection \<open>Data\<close>

type_synonym strmap = "string \<rightharpoonup> string"

record Secret =
  Data :: strmap
  Labels :: strmap

text \<open>A service of the cluster: \<^verbatim>\<open>service.Namespace\<close>, \<^verbatim>\<open>service.Name\<close> and the
  \<^verbatim>\<open>int32\<close> values \<^verbatim>\<open>port.Port\<close> of \<^verbatim>\<open>service.Spec.Ports\<close>.\<close>

record Service =
  Namespace :: string
  ServiceName :: string
  Ports :: "32 word list"

record Ingress =
  IngressNamespace :: string
  IngressName :: string
  Domain :: string
  TargetService :: string
  TargetPort :: "32 word"
  IngressClassName :: string

record Cluster =
  namespaces :: "string set"
  secrets :: "string \<times> string \<rightharpoonup> Secret"
  services :: "Service list"
  ingresses :: "Ingress list"

text \<open>\<^verbatim>\<open>config.ClusterConfig\<close>: only the field \<^verbatim>\<open>Name\<close> is read.\<close>

record ClusterConfig =
  Name :: string

text \<open>Error values: a failure of the cluster, a failure of \<^verbatim>\<open>os.ReadFile\<close>,
  \<^verbatim>\<open>*strconv.NumError\<close> (function and input),
  \<^verbatim>\<open>errors.Wrap\<close>, \<^verbatim>\<open>fmt.Errorf\<close>, and the sentinel \<^verbatim>\<open>ErrSkipThisAddon\<close>.\<close>

datatype error =
    FacadeError
  | ReadError
  | NumError string string
  | Wrap string error
  | Errorf string
  | ErrSkipThisAddon

text \<open>The calls of package \<^verbatim>\<open>service\<close>, with their arguments in the order of the source.\<close>

datatype call =
    CheckNamespaceCall string string
  | CreateNamespaceCall string string
  | CheckSecretExistsCall string string string
  | CreateSecretCall string string string strmap strmap
  | ListAllServicesCall string
  | CreateIngressCall string string string string string "32 word" string

text \<open>What the program does, in program order: a call of the cluster, a message written by
  package \<^verbatim>\<open>out\<close>, a prompt written before a line is read, a file read. A message is
  recorded by its fixed text; an error value formatted into it is left out.\<close>

datatype event =
    Call call
  | Print string
  | Prompt string
  | ReadFile string

text \<open>
  \<open>faults\<close> decides which calls of the cluster fail: each call takes the head of the list,
  \<open>True\<close> meaning that this call returns an error and does nothing (an empty list: the call
  works). \<open>stdin\<close> holds the lines the operator will type, \<open>files\<close> the readable files.
\<close>

record world =
  cluster :: Cluster
  faults :: "bool list"
  stdin :: "string list"
  files :: "string \<rightharpoonup> string"
  trace :: "event list"

subsection \<open>The cluster (package \<^verbatim>\<open>service\<close>)\<close>

definition emit :: "event \<Rightarrow> world \<Rightarrow> world" where
  "emit e w = w\<lparr>trace := trace w @ [e]\<rparr>"

definition next_fault :: "world \<Rightarrow> bool" where
  "next_fault w = (case faults w of [] \<Rightarrow> False | f # _ \<Rightarrow> f)"

definition called :: "call \<Rightarrow> world \<Rightarrow> world" where
  "called c w = emit (Call c) (w\<lparr>faults := (case faults w of [] \<Rightarrow> [] | _ # fs \<Rightarrow> fs)\<rparr>)"

text \<open>Modelled from the spec: \<^verbatim>\<open>service.CheckSecretExists\<close> is not among the sources. Spec 6:
  \<^verbatim>\<open>SecretExists(profile, namespace, secretName) -> bool | error\<close>. As a Go function it
  returns both values; with an error the boolean is the zero value.\<close>

definition CheckSecretExists :: "string \<Rightarrow> string \<Rightarrow> string \<Rightarrow> world \<Rightarrow> (bool \<times> error option) \<times> world" where
  "CheckSecretExists cname ns name w =
     (if next_fault w then ((False, Some FacadeError), called (CheckSecretExistsCall cname ns name) w)
      else ((secrets (cluster w) (ns, name) \<noteq> None, None),
            called (CheckSecretExistsCall cname ns name) w))"

subsection \<open>\<^verbatim>\<open>pkg/addons/addons_ngrok.go\<close>\<close>

text \<open>\<^verbatim>\<open>strconv.ParseBool\<close> of the Go library: it accepts exactly these twelve strings.\<close>

definition ParseBool :: "string \<Rightarrow> error + bool" where
  "ParseBool str =
     (if str \<in> set [''1'', ''t'', ''T'', ''TRUE'', ''true'', ''True''] then Inr True
      else if str \<in> set [''0'', ''f'', ''F'', ''FALSE'', ''false'', ''False''] then Inr False
      else Inl (NumError ''ParseBool'' str))"

definition enableAddonNgrok :: "ClusterConfig \<Rightarrow> world \<Rightarrow> error option \<times> world" where
  "enableAddonNgrok cfg w =
     (case CheckSecretExists (Name cfg) ''ngrok-ingress-controller''
             ''ngrok-ingress-controller-credentials'' w of
        ((exists, Some err), w1) \<Rightarrow> (Some (Wrap ''check secret exists'' err), w1)
      | ((exists, None), w1) \<Rightarrow>
          if \<not> exists
          then (Some (Errorf (''please run `minikube '' @ Name cfg
                  @ '' addons configure ngrok` to create your credentials before enabling'')), w1)
          else (None, w1))"

definition enableOrDisableNgrok :: "ClusterConfig \<Rightarrow> string \<Rightarrow> string \<Rightarrow> world \<Rightarrow> error option \<times> world" where
  "enableOrDisableNgrok cfg name val w =
     (case ParseBool val of
        Inl err \<Rightarrow> (Some (Wrap (''parsing bool: '' @ name) err), w)
      | Inr enable \<Rightarrow> if enable then enableAddonNgrok cfg w else (None, w))"

text \<open>\<^verbatim>\<open>ngrokValidation\<close>, the validator run before the add-on is enabled. The constant
  \<^verbatim>\<open>constants.DefaultClusterName\<close> is declared outside the sources and is a parameter here
  (it only decides the wording of the tip).\<close>

definition ngrokValidation :: "string \<Rightarrow> ClusterConfig \<Rightarrow> string \<Rightarrow> string \<Rightarrow> world \<Rightarrow> error option \<times> world" where
  "ngrokValidation DefaultClusterName cfg a b w =
     (case CheckSecretExists (Name cfg) ''ngrok-ingress-controller''
             ''ngrok-ingress-controller-credentials'' w of
        ((exists, Some err), w1) \<Rightarrow> (Some (Wrap ''check secret exists'' err), w1)
      | ((exists, None), w1) \<Rightarrow>
          if \<not> exists
          then (let clusterName = Name cfg;
                    tipProfileArg = (if clusterName \<noteq> DefaultClusterName
                                     then '' -p '' @ clusterName else '''')
                in (Some ErrSkipThisAddon,
                    emit (Print (''Please run `minikube '' @ tipProfileArg
                      @ '' addons configure ngrok` to create your credentials before enabling the ngrok ingress addon'')) w1))
          else (None, w1))"

subsection \<open>The rest of the cluster interface\<close>

text \<open>Modelled from the spec: \<^verbatim>\<open>service.CheckNamespace\<close>, \<^verbatim>\<open>service.CreateNamespace\<close>,
  \<^verbatim>\<open>service.CreateSecret\<close>, \<^verbatim>\<open>service.ListAllServices\<close> and \<^verbatim>\<open>service.CreateIngress\<close>
  are not among the sources. Spec 6: \<^verbatim>\<open>NamespaceExists -> bool | error\<close>,
  \<^verbatim>\<open>CreateNamespace -> error\<close>, \<^verbatim>\<open>CreateSecret(..., data, labels) -> error\<close> with
  full-replace semantics, not a merge, \<^verbatim>\<open>ListServices -> sequence\<close>,
  \<^verbatim>\<open>CreateIngress -> error\<close>. A failing call changes nothing in the cluster.\<close>

definition CheckNamespace :: "string \<Rightarrow> string \<Rightarrow> world \<Rightarrow> (bool \<times> error option) \<times> world" where
  "CheckNamespace cname ns w =
     (if next_fault w then ((False, Some FacadeError), called (CheckNamespaceCall cname ns) w)
      else ((ns \<in> namespaces (cluster w), None), called (CheckNamespaceCall cname ns) w))"

definition CreateNamespace :: "string \<Rightarrow> string \<Rightarrow> world \<Rightarrow> error option \<times> world" where
  "CreateNamespace cname ns w =
     (if next_fault w then (Some FacadeError, called (CreateNamespaceCall cname ns) w)
      else (None, called (CreateNamespaceCall cname ns)
                    (w\<lparr>cluster := (cluster w)\<lparr>namespaces := insert ns (namespaces (cluster w))\<rparr>\<rparr>)))"

definition CreateSecret :: "string \<Rightarrow> string \<Rightarrow> string \<Rightarrow> strmap \<Rightarrow> strmap \<Rightarrow> world \<Rightarrow> error option \<times> world" where
  "CreateSecret cname ns name dataValues labels w =
     (if next_fault w then (Some FacadeError, called (CreateSecretCall cname ns name dataValues labels) w)
      else (None, called (CreateSecretCall cname ns name dataValues labels)
                    (w\<lparr>cluster := (cluster w)\<lparr>secrets :=
                        (secrets (cluster w))((ns, name) \<mapsto> \<lparr>Data = dataValues, Labels = labels\<rparr>)\<rparr>\<rparr>)))"

definition ListAllServices :: "string \<Rightarrow> world \<Rightarrow> (Service list \<times> error option) \<times> world" where
  "ListAllServices cname w =
     (if next_fault w then (([], Some FacadeError), called (ListAllServicesCall cname) w)
      else ((services (cluster w), None), called (ListAllServicesCall cname) w))"

definition CreateIngress :: "string \<Rightarrow> string \<Rightarrow> string \<Rightarrow> string \<Rightarrow> string \<Rightarrow> 32 word \<Rightarrow> string \<Rightarrow> world \<Rightarrow> error option \<times> world" where
  "CreateIngress cname ns name domain svc port cls w =
     (if next_fault w then (Some FacadeError, called (CreateIngressCall cname ns name domain svc port cls) w)
      else (None, called (CreateIngressCall cname ns name domain svc port cls)
                    (w\<lparr>cluster := (cluster w)\<lparr>ingresses := ingresses (cluster w) @
                        [\<lparr>IngressNamespace = ns, IngressName = name, Domain = domain,
                          TargetService = svc, TargetPort = port, IngressClassName = cls\<rparr>]\<rparr>\<rparr>)))"

subsection \<open>The terminal\<close>

text \<open>Reading one line. \<open>None\<close> is a failed read (end of input), on which the prompt
  functions end the process with \<^verbatim>\<open>log.Fatal\<close>. An entry of \<open>stdin\<close> is the line as the
  prompt that reads it normalises it (\<^verbatim>\<open>strings.ToLower(strings.TrimSpace(response))\<close> for
  a yes/no prompt).\<close>

definition ReadString :: "world \<Rightarrow> string option \<times> world" where
  "ReadString w = (case stdin w of [] \<Rightarrow> (None, w) | l # ls \<Rightarrow> (Some l, w\<lparr>stdin := ls\<rparr>))"

text \<open>\<^verbatim>\<open>posString\<close> and \<^verbatim>\<open>containsString\<close> of \<^verbatim>\<open>addons_ngrok.go\<close>; the index counts
  from \<open>i\<close>, the position of the first element of the slice.\<close>

fun posStringFrom :: "int \<Rightarrow> string list \<Rightarrow> string \<Rightarrow> int" where
  "posStringFrom i [] element = -1"
| "posStringFrom i (elem # rest) element =
     (if elem = element then i else posStringFrom (i + 1) rest element)"

definition posString :: "string list \<Rightarrow> string \<Rightarrow> int" where
  "posString sl element = posStringFrom 0 sl element"

definition containsString :: "string list \<Rightarrow> string \<Rightarrow> bool" where
  "containsString sl element = (posString sl element \<noteq> -1)"

definition posResponses :: "string list" where
  "posResponses = [''yes'', ''y'']"

definition negResponses :: "string list" where
  "negResponses = [''no'', ''n'']"

text \<open>\<^verbatim>\<open>AskForYesNoConfirmation\<close>, as \<^verbatim>\<open>addons_ngrok.go\<close> has it (the wizard calls the copy
  of its own package, which is not among the sources).\<close>

function AskForYesNoConfirmation :: "string \<Rightarrow> string list \<Rightarrow> string list \<Rightarrow> world \<Rightarrow> bool option \<times> world" where
  "AskForYesNoConfirmation s pos neg w =
     (case ReadString (emit (Prompt (s @ '' [y/n]: '')) w) of
        (None, w1) \<Rightarrow> (None, w1)
      | (Some r, w1) \<Rightarrow>
          if containsString pos r then (Some True, w1)
          else if containsString neg r then (Some False, w1)
          else AskForYesNoConfirmation s pos neg (emit (Print ''Please type yes or no:'') w1))"
  by pat_completeness auto
termination
  by (relation "measure (\<lambda>(s, pos, neg, w). length (stdin w))")
     (auto simp: ReadString_def emit_def split: list.splits)

text \<open>Modelled from the spec: \<^verbatim>\<open>AskForStaticValue\<close>, \<^verbatim>\<open>AskForStaticValueOptional\<close> and
  \<^verbatim>\<open>AskForChoice\<close> are not among the sources. Spec 2: the prompt driver renders a prompt
  and returns a validated operator answer (free text, choice-from-set). For free text the
  next entry of \<open>stdin\<close> is the answer returned; for a choice the question is repeated
  until the answer is one of the choices.\<close>

definition AskForStaticValue :: "string \<Rightarrow> world \<Rightarrow> string option \<times> world" where
  "AskForStaticValue s w = ReadString (emit (Prompt s) w)"

definition AskForStaticValueOptional :: "string \<Rightarrow> world \<Rightarrow> string option \<times> world" where
  "AskForStaticValueOptional s w = ReadString (emit (Prompt s) w)"

function AskForChoice :: "string \<Rightarrow> string list \<Rightarrow> world \<Rightarrow> string option \<times> world" where
  "AskForChoice s choices w =
     (case ReadString (emit (Prompt s) w) of
        (None, w1) \<Rightarrow> (None, w1)
      | (Some r, w1) \<Rightarrow>
          if r \<in> set choices then (Some r, w1) else AskForChoice s choices w1)"
  by pat_completeness auto
termination
  by (relation "measure (\<lambda>(s, choices, w). length (stdin w))")
     (auto simp: ReadString_def emit_def split: list.splits)

definition AskForSingleOrMultipleDomainChoice :: "world \<Rightarrow> string option \<times> world" where
  "AskForSingleOrMultipleDomainChoice w =
     AskForChoice ''Would you like to use a single domain for all services or a unique domain for each? Free accounts can only use a single domain.''
       [''single'', ''multiple''] w"

subsection \<open>Strings and numbers of the Go library\<close>

text \<open>\<^verbatim>\<open>strings.Split(s, ":")\<close>: the pieces of \<open>s\<close> between the separators, one more than
  there are separators.\<close>

fun Split :: "string \<Rightarrow> char \<Rightarrow> string list" where
  "Split [] sep = [[]]"
| "Split (c # cs) sep =
     (if c = sep then [] # Split cs sep
      else (case Split cs sep of [] \<Rightarrow> [[c]] | p # ps \<Rightarrow> (c # p) # ps))"

definition digit_char :: "nat \<Rightarrow> char" where
  "digit_char d = ''0123456789'' ! d"

definition digit_val :: "char \<Rightarrow> nat option" where
  "digit_val c = map_of [(CHR ''0'', 0), (CHR ''1'', 1), (CHR ''2'', 2), (CHR ''3'', 3),
     (CHR ''4'', 4), (CHR ''5'', 5), (CHR ''6'', 6), (CHR ''7'', 7), (CHR ''8'', 8),
     (CHR ''9'', 9)] c"

text \<open>The verb \<^verbatim>\<open>%d\<close> of \<^verbatim>\<open>fmt.Sprintf\<close>: decimal digits, most significant first, after
  a minus sign for a negative number.\<close>

fun digits :: "nat \<Rightarrow> string" where
  "digits n = (if n < 10 then [digit_char n] else digits (n div 10) @ [digit_char (n mod 10)])"

definition FormatInt :: "int \<Rightarrow> string" where
  "FormatInt i = (if i < 0 then CHR ''-'' # digits (nat (- i)) else digits (nat i))"

text \<open>\<^verbatim>\<open>strconv.Atoi\<close>: an optional sign, then one or more decimal digits, the value within
  the 64 bits of \<^verbatim>\<open>int\<close>; anything else is a \<^verbatim>\<open>*NumError\<close>.\<close>

fun parse_digits :: "string \<Rightarrow> nat \<Rightarrow> nat option" where
  "parse_digits [] n = Some n"
| "parse_digits (c # cs) n =
     (case digit_val c of None \<Rightarrow> None | Some d \<Rightarrow> parse_digits cs (n * 10 + d))"

definition Atoi :: "string \<Rightarrow> error + int" where
  "Atoi s =
     (let signed = (s \<noteq> [] \<and> (hd s = CHR ''-'' \<or> hd s = CHR ''+''));
          body = (if signed then tl s else s)
      in if body = [] then Inl (NumError ''Atoi'' s)
         else (case parse_digits body 0 of
                 None \<Rightarrow> Inl (NumError ''Atoi'' s)
               | Some n \<Rightarrow>
                   (let v = (if s \<noteq> [] \<and> hd s = CHR ''-'' then - int n else int n)
                    in if v < - (2 ^ 63) \<or> 2 ^ 63 - 1 < v then Inl (NumError ''Atoi'' s)
                       else Inr v)))"

subsection \<open>\<^verbatim>\<open>configure.go\<close>: the two loops\<close>

text \<open>How a \<^verbatim>\<open>for\<close> body ends: with \<^verbatim>\<open>continue\<close> (or by reaching its end), with
  \<^verbatim>\<open>break\<close>, with \<^verbatim>\<open>return\<close>, with the end of the process (\<^verbatim>\<open>log.Fatal\<close> in a prompt), or
  with a run-time panic (an index out of range).\<close>

datatype ctl = Continue | Break | Return | Exit | Panic

text \<open>How a function ends: it returns, the process exits, or it panics.\<close>

datatype outcome = Returned | Exited | Panicked

text \<open>\<^verbatim>\<open>ReadFileContents\<close>: the file is read with \<^verbatim>\<open>os.ReadFile\<close>; a path outside \<open>files\<close>
  cannot be read, and the error is wrapped (\<^verbatim>\<open>%w\<close>).\<close>

definition ReadFileContents :: "string \<Rightarrow> world \<Rightarrow> (error + string) \<times> world" where
  "ReadFileContents filePath w =
     (case files w filePath of
        None \<Rightarrow> (Inl (Wrap (''failed to read file '' @ [CHR 0x27] @ filePath @ [CHR 0x27]) ReadError),
                 emit (ReadFile filePath) w)
      | Some contents \<Rightarrow> (Inr contents, emit (ReadFile filePath) w))"

text \<open>The questions of the two loops.\<close>

definition askPolicy :: string where
  "askPolicy = ''Give path to policy module file (type 'none' if done):''"

definition askService :: string where
  "askService = ''What service would you like to add ingress for? Use the format namespace:service:port (type 'none' to exit):''"

definition askDomain :: string where
  "askDomain = ''What domain would you like to use?''"

text \<open>One pass through the body of the loop of \<^verbatim>\<open>LoadAndCreatePolicyModules\<close>.\<close>

definition policyIteration :: "world \<Rightarrow> ctl \<times> world" where
  "policyIteration w =
     (case AskForStaticValueOptional askPolicy w of
        (None, w1) \<Rightarrow> (Exit, w1)
      | (Some policyModulePath, w1) \<Rightarrow>
          if policyModulePath = ''none'' then (Break, w1)
          else (case ReadFileContents policyModulePath w1 of
                  (Inl err, w2) \<Rightarrow> (Continue, emit (Print ''Error reading module set file'') w2)
                | (Inr contents, w2) \<Rightarrow> (Continue, w2)))"

function LoadAndCreatePolicyModules :: "world \<Rightarrow> outcome \<times> world" where
  "LoadAndCreatePolicyModules w =
     (case policyIteration w of
        (Continue, w') \<Rightarrow> LoadAndCreatePolicyModules w'
      | (Break, w') \<Rightarrow> (Returned, w')
      | (Return, w') \<Rightarrow> (Returned, w')
      | (Exit, w') \<Rightarrow> (Exited, w')
      | (Panic, w') \<Rightarrow> (Panicked, w'))"
  by pat_completeness auto
termination
  by (relation "measure (\<lambda>w. length (stdin w))")
     (auto simp: policyIteration_def AskForStaticValueOptional_def ReadString_def
        ReadFileContents_def emit_def split: list.splits if_splits option.splits)

text \<open>\<^verbatim>\<open>fmt.Sprintf("%s:%s:%d", service.Namespace, service.Name, port.Port)\<close>.\<close>

definition triple :: "Service \<Rightarrow> 32 word \<Rightarrow> string" where
  "triple service port =
     Namespace service @ '':'' @ ServiceName service @ '':'' @ FormatInt (sint port)"

text \<open>The text shown in the box: one line for every port of every service.\<close>

definition serviceString :: "Service list \<Rightarrow> string" where
  "serviceString items =
     concat (map (\<lambda>service. concat (map (\<lambda>port. triple service port @ [CHR 0x0A]) (Ports service))) items)"

text \<open>The search for the choice: the inner loop over the ports of one service, which
  \<^verbatim>\<open>break\<close> leaves at the first match, and the outer loop over the services, which runs to
  its end. \<open>found\<close> is the variable of the source.\<close>

fun portLoop :: "Service \<Rightarrow> string \<Rightarrow> 32 word list \<Rightarrow> bool \<Rightarrow> bool" where
  "portLoop service serviceChoice [] found = found"
| "portLoop service serviceChoice (port # ports) found =
     (if triple service port = serviceChoice then True
      else portLoop service serviceChoice ports found)"

fun serviceLoop :: "string \<Rightarrow> Service list \<Rightarrow> bool \<Rightarrow> bool" where
  "serviceLoop serviceChoice [] found = found"
| "serviceLoop serviceChoice (service # items) found =
     serviceLoop serviceChoice items (portLoop service serviceChoice (Ports service) found)"

text \<open>One pass through the body of the loop of \<^verbatim>\<open>AddIngressToServices\<close>. The variable
  \<^verbatim>\<open>domain\<close> lives across the passes, so a pass returns it.\<close>

definition ingressIteration :: "string \<Rightarrow> Service list \<Rightarrow> bool \<Rightarrow> string \<Rightarrow> world \<Rightarrow> (ctl \<times> string) \<times> world" where
  "ingressIteration profile items singleDomain domain w =
     (case AskForStaticValue askService w of
        (None, w1) \<Rightarrow> ((Exit, domain), w1)
      | (Some serviceChoice, w1) \<Rightarrow>
          if serviceChoice = ''none'' then ((Break, domain), w1)
          else if \<not> serviceLoop serviceChoice items False
          then ((Continue, domain), emit (Print ''Service not found'') w1)
          else (case (if \<not> singleDomain then AskForStaticValue askDomain w1
                      else (Some domain, w1)) of
                  (None, w2) \<Rightarrow> ((Exit, domain), w2)
                | (Some domain', w2) \<Rightarrow>
                    (let serviceParts = Split serviceChoice CHR '':'' in
                     if length serviceParts < 3 then ((Panic, domain'), w2)
                     else (let namespace = serviceParts ! 0;
                               serviceName = serviceParts ! 1
                           in case Atoi (serviceParts ! 2) of
                                Inl err \<Rightarrow>
                                  ((Return, domain'), emit (Print ''Error converting port to int'') w2)
                              | Inr port \<Rightarrow>
                                  (case CreateIngress profile namespace (''ngrok-ingress-'' @ serviceName)
                                          domain' serviceName (word_of_int port) ''ngrok'' w2 of
                                     (Some err, w3) \<Rightarrow>
                                       ((Continue, domain'), emit (Print ''Error creating ingress'') w3)
                                   | (None, w3) \<Rightarrow> ((Continue, domain'), w3))))))"

function AddIngressLoop :: "string \<Rightarrow> Service list \<Rightarrow> bool \<Rightarrow> string \<Rightarrow> world \<Rightarrow> outcome \<times> world" where
  "AddIngressLoop profile items singleDomain domain w =
     (case ingressIteration profile items singleDomain domain w of
        ((Continue, domain'), w') \<Rightarrow> AddIngressLoop profile items singleDomain domain' w'
      | ((Break, domain'), w') \<Rightarrow> (Returned, w')
      | ((Return, domain'), w') \<Rightarrow> (Returned, w')
      | ((Exit, domain'), w') \<Rightarrow> (Exited, w')
      | ((Panic, domain'), w') \<Rightarrow> (Panicked, w'))"
  by pat_completeness auto
termination
  by (relation "measure (\<lambda>(profile, items, singleDomain, domain, w). length (stdin w))")
     (auto simp: ingressIteration_def AskForStaticValue_def ReadString_def CreateIngress_def
        called_def emit_def Let_def split: list.splits if_splits option.splits sum.splits)

definition AddIngressToServices :: "string \<Rightarrow> bool \<Rightarrow> string \<Rightarrow> world \<Rightarrow> outcome \<times> world" where
  "AddIngressToServices profile singleDomain domain w =
     (case ListAllServices profile w of
        ((items, Some err), w1) \<Rightarrow> (Returned, emit (Print ''Error listing services'') w1)
      | ((items, None), w1) \<Rightarrow>
          AddIngressLoop profile items singleDomain domain
            (emit (Print (''Services:'' @ [CHR 0x0A] @ serviceString items)) w1))"

subsection \<open>\<^verbatim>\<open>configure.go\<close>: the case \<^verbatim>\<open>"ngrok"\<close> of \<^verbatim>\<open>addonsConfigureCmd\<close>\<close>

text \<open>
  The case is one block of code; it is cut here into the three steps the specification
  names. The functions of package \<^verbatim>\<open>out\<close> (\<^verbatim>\<open>ErrT\<close>, \<^verbatim>\<open>FailureT\<close>, \<^verbatim>\<open>Err\<close>, \<^verbatim>\<open>SuccessT\<close>,
  \<^verbatim>\<open>Boxed\<close>, \<^verbatim>\<open>Styled\<close>) write a message and return: \<^verbatim>\<open>style.Fatal\<close> is the style of the
  message. What ends the process in this code base is package \<^verbatim>\<open>exit\<close> (as in the usage
  check at the head of the command) and \<^verbatim>\<open>log.Fatal\<close>.
\<close>

text \<open>Lines 282 to 294: the namespace.\<close>

definition stepEnsureNamespace :: "string \<Rightarrow> world \<Rightarrow> world" where
  "stepEnsureNamespace profile w =
     (let namespace = ''ngrok-ingress-controller'' in
      case CheckNamespace profile namespace w of
        ((exists, err), w1) \<Rightarrow>
          (let w2 = (if err \<noteq> None
                     then emit (Print ''Error checking for existing `ngrok-ingress-controller` namespace'') w1
                     else w1)
           in if \<not> exists
              then (case CreateNamespace profile namespace w2 of
                      (Some err', w3) \<Rightarrow>
                        emit (Print ''Error creating `ngrok-ingress-controller` namespace'') w3
                    | (None, w3) \<Rightarrow> w3)
              else w2))"

definition ngrokLabels :: strmap where
  "ngrokLabels = [''app'' \<mapsto> ''ngrok'', ''cloud'' \<mapsto> ''ngrok'',
     ''kubernetes.io/minikube-addons'' \<mapsto> ''ngrok'']"

text \<open>Lines 296 to 329: the credentials.\<close>

definition stepReconcileCredentials :: "string \<Rightarrow> world \<Rightarrow> outcome \<times> world" where
  "stepReconcileCredentials profile w =
     (let namespace = ''ngrok-ingress-controller'' in
      case CheckSecretExists profile namespace ''ngrok-ingress-controller-credentials'' w of
        ((exists, err), w1) \<Rightarrow>
          (let w2 = (if err \<noteq> None
                     then emit (Print ''Error checking for existing `ngrok-ingress-controller-credentials secret`'') w1
                     else w1);
               replaceOrSet = (if exists then ''replace'' else ''set'');
               msg = ''Would you like to '' @ replaceOrSet @ '' ngrok credentials?''
           in case AskForYesNoConfirmation msg posResponses negResponses w2 of
                (None, w3) \<Rightarrow> (Exited, w3)
              | (Some setCredentials, w3) \<Rightarrow>
                  if setCredentials
                  then (case AskForStaticValue ''-- Enter ngrok authtoken: '' w3 of
                          (None, w4) \<Rightarrow> (Exited, w4)
                        | (Some ngrokAuthToken, w4) \<Rightarrow>
                            (case AskForStaticValue ''-- Enter ngrok apikey: '' w4 of
                               (None, w5) \<Rightarrow> (Exited, w5)
                             | (Some ngrokAPIKey, w5) \<Rightarrow>
                                 (case CreateSecret profile namespace
                                         ''ngrok-ingress-controller-credentials''
                                         [''AUTHTOKEN'' \<mapsto> ngrokAuthToken, ''API_KEY'' \<mapsto> ngrokAPIKey]
                                         ngrokLabels w5 of
                                    (Some err', w6) \<Rightarrow>
                                      (Returned, emit (Print ''ERROR creating `ngrok-ingress-controller-credentials` secret'') w6)
                                  | (None, w6) \<Rightarrow> (Returned, w6))))
                  else (Returned, w3)))"

text \<open>Lines 331 to 357: the ingress of existing services. The \<^verbatim>\<open>break\<close> of line 333 leaves
  the \<^verbatim>\<open>switch\<close>.\<close>

definition stepConfigureIngress :: "string \<Rightarrow> world \<Rightarrow> outcome \<times> world" where
  "stepConfigureIngress profile w =
     (case AskForYesNoConfirmation ''Would you like to configure ingress for existing services in your minikube cluster?''
             posResponses negResponses w of
        (None, w1) \<Rightarrow> (Exited, w1)
      | (Some configureIngress, w1) \<Rightarrow>
          if \<not> configureIngress then (Returned, w1)
          else (case AskForSingleOrMultipleDomainChoice w1 of
                  (None, w2) \<Rightarrow> (Exited, w2)
                | (Some domainChoice, w2) \<Rightarrow>
                    (let singleDomain = (domainChoice = ''single'') in
                     case (if singleDomain then AskForStaticValue askDomain w2
                           else (Some [], w2)) of
                       (None, w3) \<Rightarrow> (Exited, w3)
                     | (Some domain, w3) \<Rightarrow>
                         (case AskForYesNoConfirmation ''Would you like to create a policy module that can be used to secure ingress to services with authentication?''
                                 posResponses negResponses w3 of
                            (None, w4) \<Rightarrow> (Exited, w4)
                          | (Some configurePolicyModule, w4) \<Rightarrow>
                              (case (if configurePolicyModule then LoadAndCreatePolicyModules w4
                                     else (Returned, w4)) of
                                 (Returned, w5) \<Rightarrow>
                                   (case AskForYesNoConfirmation ''Would you like to create ingress to existing services?''
                                           posResponses negResponses w5 of
                                      (None, w6) \<Rightarrow> (Exited, w6)
                                    | (Some configureIngressToServices, w6) \<Rightarrow>
                                        (case (if configureIngressToServices
                                               then AddIngressToServices profile singleDomain domain w6
                                               else (Returned, w6)) of
                                           (Returned, w7) \<Rightarrow>
                                             (Returned, emit (Print ''Congrats, you have configured ingress with ngrok in your minikube cluster.'') w7)
                                         | (other, w7) \<Rightarrow> (other, w7)))
                               | (other, w5) \<Rightarrow> (other, w5))))))"

text \<open>The whole case, with the message that follows the \<^verbatim>\<open>switch\<close> (line 365).\<close>

definition ngrokConfigure :: "string \<Rightarrow> world \<Rightarrow> outcome \<times> world" where
  "ngrokConfigure profile w =
     (case stepReconcileCredentials profile (stepEnsureNamespace profile w) of
        (Returned, w1) \<Rightarrow>
          (case stepConfigureIngress profile w1 of
             (Returned, w2) \<Rightarrow> (Returned, emit (Print ''ngrok was successfully configured'') w2)
           | (other, w2) \<Rightarrow> (other, w2))
      | (other, w1) \<Rightarrow> (other, w1))"

declare AskForYesNoConfirmation.simps [simp del]
declare AskForChoice.simps [simp del]
declare LoadAndCreatePolicyModules.simps [simp del]
declare AddIngressLoop.simps [simp del]
declare digits.simps [simp del]

subsection \<open>Observations and concrete worlds\<close>

text \<open>The calls of the cluster in a trace, in order.\<close>

fun calls_of :: "event list \<Rightarrow> call list" where
  "calls_of [] = []"
| "calls_of (Call c # es) = c # calls_of es"
| "calls_of (e # es) = calls_of es"

text \<open>The domains of the ingress-creation requests in a trace, in order.\<close>

fun ingress_domains :: "event list \<Rightarrow> string list" where
  "ingress_domains [] = []"
| "ingress_domains (Call (CreateIngressCall cname ns name domain svc port cls) # es) =
     domain # ingress_domains es"
| "ingress_domains (e # es) = ingress_domains es"

text \<open>The triples of a service list, as the box shows them and as the search compares them.\<close>

definition rendered :: "Service list \<Rightarrow> string list" where
  "rendered items = concat (map (\<lambda>service. map (triple service) (Ports service)) items)"

text \<open>No namespace and no name of the list contains a colon (as for every object of a
  Kubernetes cluster, whose names are DNS labels).\<close>

definition no_colon :: "Service list \<Rightarrow> bool" where
  "no_colon items =
     list_all (\<lambda>service. CHR '':'' \<notin> set (Namespace service) \<and>
                         CHR '':'' \<notin> set (ServiceName service)) items"

text \<open>The key of the credential secret: namespace and name.\<close>

definition credentials :: "string \<times> string" where
  "credentials = (''ngrok-ingress-controller'', ''ngrok-ingress-controller-credentials'')"

text \<open>An empty cluster that works, no input, no files, nothing done yet.\<close>

definition blank :: world where
  "blank = \<lparr>cluster = \<lparr>namespaces = {}, secrets = Map.empty, services = [], ingresses = []\<rparr>,
            faults = [], stdin = [], files = Map.empty, trace = []\<rparr>"

text \<open>The world after a pass that did not find the choice: the line is consumed, the question
  and the message are in the trace.\<close>

definition not_found :: "string list \<Rightarrow> world \<Rightarrow> world" where
  "not_found rest w =
     w\<lparr>stdin := rest, trace := trace w @ [Prompt askService, Print ''Service not found'']\<rparr>"

text \<open>Services for the examples; the last one has a name no cluster would accept.\<close>

definition dns :: Service where
  "dns = \<lparr>Namespace = ''kube-system'', ServiceName = ''dns'', Ports = [53]\<rparr>"

definition web :: Service where
  "web = \<lparr>Namespace = ''default'', ServiceName = ''web'', Ports = [80, 8080]\<rparr>"

definition odd_service :: Service where
  "odd_service = \<lparr>Namespace = ''a'', ServiceName = ''b:c'', Ports = [7]\<rparr>"

text \<open>A working cluster with the given services and an operator who types the given lines.\<close>

definition typing :: "Service list \<Rightarrow> string list \<Rightarrow> world" where
  "typing items lines = blank\<lparr>cluster := (cluster blank)\<lparr>services := items\<rparr>, stdin := lines\<rparr>"

text \<open>What one pass of the policy loop adds to the trace for a path: the question, the read,
  and the error message when the file cannot be read.\<close>

definition policy_events :: "(string \<rightharpoonup> string) \<Rightarrow> string \<Rightarrow> event list" where
  "policy_events fs path =
     [Prompt askPolicy, ReadFile path] @
     (if fs path = None then [Print ''Error reading module set file''] else [])"

text \<open>An operator who gives an unreadable path, a readable one, and the sentinel.\<close>

definition policies :: world where
  "policies = blank\<lparr>files := [''auth.yaml'' \<mapsto> ''rules''],
                     stdin := [''missing.yaml'', ''auth.yaml'', ''none'', ''y'']\<rparr>"

text \<open>The namespace of the add-on.\<close>

definition ngrokNamespace :: string where
  "ngrokNamespace = ''ngrok-ingress-controller''"

text \<open>A cluster that already holds a credential secret with three keys, and an operator who
  accepts the question and enters new values.\<close>

definition old_secret :: world where
  "old_secret = blank\<lparr>cluster := (cluster blank)\<lparr>secrets :=
       [credentials \<mapsto> \<lparr>Data = [''AUTHTOKEN'' \<mapsto> ''a'', ''API_KEY'' \<mapsto> ''b'', ''REGION'' \<mapsto> ''eu''],
                         Labels = Map.empty\<rparr>]\<rparr>,
     stdin := [''y'', ''c'', ''d'']\<rparr>"

text \<open>The four error messages of the setup steps (lines 287, 292, 298 and 326).\<close>

definition setup_errors :: "string list" where
  "setup_errors =
     [''Error checking for existing `ngrok-ingress-controller` namespace'',
      ''Error creating `ngrok-ingress-controller` namespace'',
      ''Error checking for existing `ngrok-ingress-controller-credentials secret`'',
      ''ERROR creating `ngrok-ingress-controller-credentials` secret'']"

text \<open>How many of these messages a trace holds.\<close>

fun reported :: "event list \<Rightarrow> nat" where
  "reported [] = 0"
| "reported (Print m # es) = (if m \<in> set setup_errors then 1 else 0) + reported es"
| "reported (e # es) = reported es"

text \<open>A cluster on which the four calls of the setup steps all fail, and an operator who sets
  credentials and asks for ingress with a single domain.\<close>

definition all_fail :: world where
  "all_fail = blank\<lparr>faults := [True, True, True, True],
     stdin := [''y'', ''token'', ''key'', ''y'', ''single'', ''foo.ngrok.app'', ''n'', ''n'']\<rparr>"

text \<open>The answer of a yes/no question and the lines left after it, as functions of the lines
  the operator types.\<close>

definition yn_answer :: "string list \<Rightarrow> string list \<Rightarrow> string list \<Rightarrow> bool option" where
  "yn_answer pos neg lines = fst (AskForYesNoConfirmation [] pos neg (blank\<lparr>stdin := lines\<rparr>))"

definition yn_rest :: "string list \<Rightarrow> string list \<Rightarrow> string list \<Rightarrow> string list" where
  "yn_rest pos neg lines = stdin (snd (AskForYesNoConfirmation [] pos neg (blank\<lparr>stdin := lines\<rparr>)))"

text \<open>Between two worlds the program made some calls of the cluster, took their outcomes from
  \<open>faults\<close>, and wrote as many setup error messages as there were failing calls among them.\<close>

definition accounted :: "world \<Rightarrow> world \<Rightarrow> bool" where
  "accounted w w' \<longleftrightarrow>
     (\<exists>cs. calls_of (trace w') = calls_of (trace w) @ cs \<and>
           faults w' = drop (length cs) (faults w) \<and>
           reported (trace w') = reported (trace w) + count_list (take (length cs) (faults w)) True)"

text \<open>Between two worlds every new ingress-creation request carries the domain \<open>d\<close>.\<close>

definition carries :: "string \<Rightarrow> world \<Rightarrow> world \<Rightarrow> bool" where
  "carries d w w' \<longleftrightarrow>
     (\<exists>n. ingress_domains (trace w') = ingress_domains (trace w) @ replicate n d)"

text \<open>The two examples of the specification: a single domain for two services, and the same
  service selected twice under the strategy of one domain for each.\<close>

definition single_run :: world where
  "single_run = typing [dns, web]
     [''y'', ''single'', ''foo.ngrok.app'', ''n'', ''y'', ''kube-system:dns:53'', ''default:web:80'', ''none'']"

definition multiple_run :: world where
  "multiple_run = typing [dns, web]
     [''kube-system:dns:53'', ''a.ngrok.app'', ''kube-system:dns:53'', ''b.ngrok.app'', ''none'']"

section \<open>Properties\<close>

lemma calls_of_append [simp]: "calls_of (xs @ ys) = calls_of xs @ calls_of ys"
  by (induction xs rule: calls_of.induct) simp_all

subsection \<open>Splitting, printing and parsing\<close>


lemma Split_no_sep: "sep \<notin> set s \<Longrightarrow> Split s sep = [s]"
  by (induction s) (auto split: list.splits)

lemma Split_append: "sep \<notin> set a \<Longrightarrow> Split (a @ sep # b) sep = a # Split b sep"
  by (induction a) (auto split: list.splits)


lemma digit_cases: "d < 10 \<Longrightarrow> d = 0 \<or> d = 1 \<or> d = 2 \<or> d = 3 \<or> d = 4 \<or> d = 5 \<or> d = 6 \<or> d = 7 \<or> d = 8 \<or> d = (9::nat)"
  by arith

lemma digit_val_digit_char: "d < 10 \<Longrightarrow> digit_val (digit_char d) = Some d"
  using digit_cases [of d] by (auto simp: digit_val_def digit_char_def)

lemma digit_char_plain: "d < 10 \<Longrightarrow> digit_char d \<notin> {CHR '':'', CHR ''-'', CHR ''+''}"
  using digit_cases [of d] by (auto simp: digit_char_def)

lemma parse_digits_append:
  "parse_digits (xs @ ys) n = (case parse_digits xs n of None \<Rightarrow> None | Some m \<Rightarrow> parse_digits ys m)"
  by (induction xs arbitrary: n) (auto split: option.splits)

lemma parse_digits_digits: "parse_digits (digits n) 0 = Some n"
proof (induction n rule: digits.induct)
  case (1 n)
  show ?case
  proof (cases "n < 10")
    case True
    then show ?thesis
      by (subst digits.simps) (simp add: digit_val_digit_char)
  next
    case False
    with 1 have "parse_digits (digits (n div 10)) 0 = Some (n div 10)" by simp
    with False show ?thesis
      by (subst digits.simps) (simp add: parse_digits_append digit_val_digit_char)
  qed
qed

lemma digits_chars: "c \<in> set (digits n) \<Longrightarrow> c \<notin> {CHR '':'', CHR ''-'', CHR ''+''}"
proof (induction n rule: digits.induct)
  case (1 n)
  show ?case
  proof (cases "n < 10")
    case True
    with 1(2) digit_char_plain [of n] show ?thesis
      by (subst (asm) digits.simps) auto
  next
    case False
    with 1 digit_char_plain [of "n mod 10"] show ?thesis
      by (subst (asm) (2) digits.simps) auto
  qed
qed

lemma digits_nonempty: "digits n \<noteq> []"
  by (subst digits.simps) simp

lemma FormatInt_no_colon: "CHR '':'' \<notin> set (FormatInt i)"
  using digits_chars by (auto simp: FormatInt_def)

lemma Atoi_FormatInt:
  assumes "- (2 ^ 63) \<le> i" "i < 2 ^ 63"
  shows "Atoi (FormatInt i) = Inr i"
proof (cases "i < 0")
  case True
  with assms show ?thesis
    by (simp add: Atoi_def FormatInt_def digits_nonempty parse_digits_digits)
next
  case False
  have "hd (digits (nat i)) \<in> set (digits (nat i))"
    by (simp add: digits_nonempty)
  then have "hd (digits (nat i)) \<notin> {CHR '':'', CHR ''-'', CHR ''+''}"
    by (rule digits_chars)
  with False assms show ?thesis
    by (simp add: Atoi_def FormatInt_def digits_nonempty parse_digits_digits)
qed

lemma Atoi_port: "Atoi (FormatInt (sint (p :: 32 word))) = Inr (sint p)"
proof -
  have "- (2 ^ 31) \<le> sint p" "sint p < 2 ^ 31"
    using sint_ge [of p] sint_lt [of p] by simp_all
  then show ?thesis
    by (intro Atoi_FormatInt) simp_all
qed

lemma portLoop_iff: "portLoop service c ports found \<longleftrightarrow> found \<or> c \<in> triple service ` set ports"
  by (induction ports) auto

lemma serviceLoop_iff: "serviceLoop c items found \<longleftrightarrow> found \<or> c \<in> set (rendered items)"
  by (induction items arbitrary: found) (auto simp: rendered_def portLoop_iff)


lemma Split_triple:
  "CHR '':'' \<notin> set (Namespace service) \<Longrightarrow> CHR '':'' \<notin> set (ServiceName service) \<Longrightarrow>
   Split (triple service port) CHR '':'' = [Namespace service, ServiceName service, FormatInt (sint port)]"
  by (simp add: triple_def Split_append Split_no_sep FormatInt_no_colon)

subsection \<open>The credential gate and the entry point\<close>

text \<open>
  C1. For every cluster state, \<^verbatim>\<open>ngrokValidation\<close> returns the skip outcome
  \<^verbatim>\<open>ErrSkipThisAddon\<close> exactly when the existence check works and the secret
  \<^verbatim>\<open>ngrok-ingress-controller-credentials\<close> is absent from the namespace
  \<^verbatim>\<open>ngrok-ingress-controller\<close>; it returns no error exactly when the check works and the
  secret is there; it returns an error (the wrapped error of the check) exactly when the
  check itself fails. The cluster is the same afterwards, and the one call made is the
  existence check.
\<close>

theorem ngrokValidation_gate:
  "(fst (ngrokValidation dflt cfg a b w) = Some ErrSkipThisAddon
      \<longleftrightarrow> \<not> next_fault w \<and> secrets (cluster w) credentials = None) \<and>
   (fst (ngrokValidation dflt cfg a b w) = None
      \<longleftrightarrow> \<not> next_fault w \<and> secrets (cluster w) credentials \<noteq> None) \<and>
   (fst (ngrokValidation dflt cfg a b w) = Some (Wrap ''check secret exists'' FacadeError)
      \<longleftrightarrow> next_fault w) \<and>
   cluster (snd (ngrokValidation dflt cfg a b w)) = cluster w \<and>
   calls_of (trace (snd (ngrokValidation dflt cfg a b w)))
     = calls_of (trace w) @ [CheckSecretExistsCall (Name cfg) (fst credentials) (snd credentials)]"
  by (simp add: ngrokValidation_def CheckSecretExists_def credentials_def called_def emit_def Let_def)

text \<open>
  C9. For every value that \<^verbatim>\<open>strconv.ParseBool\<close> reads as false, \<^verbatim>\<open>enableOrDisableNgrok\<close>
  returns no error and leaves the world as it is: no call of the cluster, no message. For
  every value that does not parse, it returns the wrapped parse error, again with the world
  untouched.
\<close>

theorem enableOrDisableNgrok_disable_is_noop:
  "(ParseBool val = Inr False \<longrightarrow> enableOrDisableNgrok cfg name val w = (None, w)) \<and>
   (\<forall>e. ParseBool val = Inl e \<longrightarrow>
      enableOrDisableNgrok cfg name val w = (Some (Wrap (''parsing bool: '' @ name) e), w))"
  by (simp add: enableOrDisableNgrok_def)

theorem enableOrDisableNgrok_disable_is_noop_witness:
  "enableOrDisableNgrok \<lparr>Name = ''minikube''\<rparr> ''ngrok'' ''false'' blank = (None, blank) \<and>
   enableOrDisableNgrok \<lparr>Name = ''minikube''\<rparr> ''ngrok'' ''maybe'' blank
     = (Some (Wrap ''parsing bool: ngrok'' (NumError ''ParseBool'' ''maybe'')), blank)"
proof -
  have f: "ParseBool ''false'' = Inr False"
    by (simp add: ParseBool_def)
  have m: "ParseBool ''maybe'' = Inl (NumError ''ParseBool'' ''maybe'')"
    by (simp add: ParseBool_def)
  from enableOrDisableNgrok_disable_is_noop [of "''false''", THEN conjunct1, rule_format, OF f]
       enableOrDisableNgrok_disable_is_noop [of "''maybe''", THEN conjunct2, rule_format, OF m]
  show ?thesis by simp
qed

subsection \<open>The service loop\<close>

lemma rendered_parts:
  assumes "choice \<in> set (rendered items)"
  obtains service port where "service \<in> set items" "port \<in> set (Ports service)"
    "choice = triple service port"
  using assms by (auto simp: rendered_def)


lemma rendered_Split:
  assumes "no_colon items" "choice \<in> set (rendered items)"
  shows "\<exists>service \<in> set items. \<exists>port \<in> set (Ports service).
           Split choice CHR '':'' = [Namespace service, ServiceName service, FormatInt (sint port)]"
proof -
  from assms(2) obtain service port where sp: "service \<in> set items" "port \<in> set (Ports service)"
    "choice = triple service port" by (rule rendered_parts)
  from assms(1) sp(1) have "CHR '':'' \<notin> set (Namespace service)" "CHR '':'' \<notin> set (ServiceName service)"
    by (auto simp: no_colon_def list_all_iff)
  then have "Split choice CHR '':'' = [Namespace service, ServiceName service, FormatInt (sint port)]"
    unfolding sp(3) by (rule Split_triple)
  with sp show ?thesis by blast
qed

lemma ingressIteration_not_found:
  assumes "stdin w = choice # rest" "choice \<noteq> ''none''" "choice \<notin> set (rendered items)"
  shows "ingressIteration p items sd d w = ((Continue, d), not_found rest w)"
  using assms
  by (simp add: ingressIteration_def AskForStaticValue_def ReadString_def emit_def
        serviceLoop_iff not_found_def)

lemma AddIngressLoop_not_found:
  assumes "stdin w = choice # rest" "choice \<noteq> ''none''" "choice \<notin> set (rendered items)"
  shows "AddIngressLoop p items sd d w = AddIngressLoop p items sd d (not_found rest w)"
  by (subst AddIngressLoop.simps) (simp add: ingressIteration_not_found [OF assms])

lemma ingressIteration_calls:
  assumes "calls_of (trace (snd (ingressIteration p items sd d w))) \<noteq> calls_of (trace w)"
  shows "\<exists>choice rest. stdin w = choice # rest \<and> choice \<noteq> ''none'' \<and> choice \<in> set (rendered items)"
  using assms
  by (auto simp: ingressIteration_def AskForStaticValue_def ReadString_def emit_def
        serviceLoop_iff Let_def split: list.splits if_splits sum.splits option.splits prod.splits)

text \<open>The examples, evaluated.\<close>

lemma digits_eval: "digits 7 = ''7''" "digits 53 = ''53''" "digits 80 = ''80''" "digits 8080 = ''8080''"
  by (simp_all add: digits.simps [of 7] digits.simps [of 53] digits.simps [of 5]
        digits.simps [of 80] digits.simps [of 8] digits.simps [of 8080] digits.simps [of 808]
        digit_char_def)

lemma Atoi_eval: "Atoi ''53'' = Inr 53" "Atoi ''80'' = Inr 80"
  "Atoi ''c'' = Inl (NumError ''Atoi'' ''c'')" "Atoi ''http'' = Inl (NumError ''Atoi'' ''http'')"
  by (simp_all add: Atoi_def digit_val_def)

lemma service_fields:
  "Namespace dns = ''kube-system''" "ServiceName dns = ''dns''" "Ports dns = [53]"
  "Namespace web = ''default''" "ServiceName web = ''web''" "Ports web = [80, 8080]"
  "Namespace odd_service = ''a''" "ServiceName odd_service = ''b:c''" "Ports odd_service = [7]"
  by (simp_all add: dns_def web_def odd_service_def)

lemma triple_eval: "triple dns 53 = ''kube-system:dns:53''" "triple web 80 = ''default:web:80''"
  "triple web 8080 = ''default:web:8080''" "triple odd_service 7 = ''a:b:c:7''"
  by (simp_all add: triple_def service_fields FormatInt_def digits_eval)

lemma rendered_eval: "rendered [dns, web] = [''kube-system:dns:53'', ''default:web:80'', ''default:web:8080'']"
  "rendered [odd_service] = [''a:b:c:7'']"
  by (simp_all add: rendered_def service_fields triple_eval)

text \<open>
  C5. A selection is an answer to the service question other than the sentinel
  \<^verbatim>\<open>none\<close>, which ends the loop. A pass of the loop calls the cluster only if the selection is
  equal to one of the rendered triples \<^verbatim>\<open>namespace:name:port\<close>. Every other selection (a
  right namespace and name with a wrong port, for one) is answered with
  \<^verbatim>\<open>Service not found\<close>, no call is made, the pass ends with \<^verbatim>\<open>continue\<close> and the loop goes
  on with the next line.
\<close>

theorem selection_must_match:
  assumes "stdin w = choice # rest" and "choice \<noteq> ''none''"
  shows "(choice \<notin> set (rendered items) \<longrightarrow>
            ingressIteration p items sd d w = ((Continue, d), not_found rest w) \<and>
            AddIngressLoop p items sd d w = AddIngressLoop p items sd d (not_found rest w)) \<and>
         (calls_of (trace (snd (ingressIteration p items sd d w))) \<noteq> calls_of (trace w) \<longrightarrow>
            choice \<in> set (rendered items))"
proof (intro conjI impI)
  assume "choice \<notin> set (rendered items)"
  with assms show "ingressIteration p items sd d w = ((Continue, d), not_found rest w)"
    by (rule ingressIteration_not_found)
next
  assume "choice \<notin> set (rendered items)"
  with assms show "AddIngressLoop p items sd d w = AddIngressLoop p items sd d (not_found rest w)"
    by (rule AddIngressLoop_not_found)
next
  assume "calls_of (trace (snd (ingressIteration p items sd d w))) \<noteq> calls_of (trace w)"
  from ingressIteration_calls [OF this] assms(1) show "choice \<in> set (rendered items)"
    by auto
qed

theorem selection_must_match_witness:
  "ingressIteration ''minikube'' [dns, web] True ''foo.ngrok.app''
       (typing [dns, web] [''kube-system:dns:9999'', ''none''])
     = ((Continue, ''foo.ngrok.app''), not_found [''none''] (typing [dns, web] [''kube-system:dns:9999'', ''none''])) \<and>
   AddIngressLoop ''minikube'' [dns, web] True ''foo.ngrok.app''
       (typing [dns, web] [''kube-system:dns:9999'', ''none''])
     = AddIngressLoop ''minikube'' [dns, web] True ''foo.ngrok.app''
         (not_found [''none''] (typing [dns, web] [''kube-system:dns:9999'', ''none''])) \<and>
   calls_of (trace (snd (ingressIteration ''minikube'' [dns, web] True ''foo.ngrok.app''
       (typing [dns, web] [''kube-system:dns:53'', ''none'']))))
     = [CreateIngressCall ''minikube'' ''kube-system'' ''ngrok-ingress-dns'' ''foo.ngrok.app''
          ''dns'' 53 ''ngrok''] \<and>
   ''kube-system:dns:53'' \<in> set (rendered [dns, web])"
proof -
  have a: "stdin (typing [dns, web] [''kube-system:dns:9999'', ''none'']) = ''kube-system:dns:9999'' # [''none'']"
    by (simp add: typing_def)
  have b: "''kube-system:dns:9999'' \<noteq> ''none''" by simp
  have c: "''kube-system:dns:9999'' \<notin> set (rendered [dns, web])"
    by (simp add: rendered_eval)
  have d: "stdin (typing [dns, web] [''kube-system:dns:53'', ''none'']) = ''kube-system:dns:53'' # [''none'']"
    by (simp add: typing_def)
  have e: "''kube-system:dns:53'' \<noteq> ''none''" by simp
  have f: "calls_of (trace (snd (ingressIteration ''minikube'' [dns, web] True ''foo.ngrok.app''
       (typing [dns, web] [''kube-system:dns:53'', ''none'']))))
     = [CreateIngressCall ''minikube'' ''kube-system'' ''ngrok-ingress-dns'' ''foo.ngrok.app''
          ''dns'' 53 ''ngrok'']"
    by (simp add: ingressIteration_def AskForStaticValue_def ReadString_def emit_def typing_def
          blank_def serviceLoop_iff rendered_eval Atoi_eval CreateIngress_def next_fault_def
          called_def Let_def)
  have g: "calls_of (trace (snd (ingressIteration ''minikube'' [dns, web] True ''foo.ngrok.app''
       (typing [dns, web] [''kube-system:dns:53'', ''none'']))))
     \<noteq> calls_of (trace (typing [dns, web] [''kube-system:dns:53'', ''none'']))"
    by (simp add: f) (simp add: typing_def blank_def)
  from selection_must_match [OF a b, of "[dns, web]", THEN conjunct1, rule_format, OF c]
       selection_must_match [OF d e, THEN conjunct2, rule_format, OF g] f
  show ?thesis by simp
qed

text \<open>
  C10. When no namespace and no name of the service list contains a colon, a selection that
  the search finds splits at the colons into exactly three pieces, namespace, name and
  port of one of the services, and \<^verbatim>\<open>strconv.Atoi\<close> reads the third piece as that port. So no
  pass of the loop ends in the \<^verbatim>\<open>return\<close> after the conversion error or in an index out of
  range.
\<close>

theorem matched_selection_parses:
  assumes "no_colon items"
  shows "(serviceLoop choice items False \<longrightarrow>
           length (Split choice CHR '':'') = 3 \<and>
           (\<exists>service \<in> set items. \<exists>port \<in> set (Ports service).
              Split choice CHR '':'' = [Namespace service, ServiceName service, FormatInt (sint port)] \<and>
              Atoi (Split choice CHR '':'' ! 2) = Inr (sint port))) \<and>
         fst (fst (ingressIteration p items sd d w)) \<noteq> Return \<and>
         fst (fst (ingressIteration p items sd d w)) \<noteq> Panic"
proof -
  have parts: "\<exists>service \<in> set items. \<exists>port \<in> set (Ports service).
          Split c CHR '':'' = [Namespace service, ServiceName service, FormatInt (sint port)] \<and>
          Atoi (Split c CHR '':'' ! 2) = Inr (sint port)" if "serviceLoop c items False" for c
  proof -
    from that have "c \<in> set (rendered items)" by (simp add: serviceLoop_iff)
    from rendered_Split [OF assms this] show ?thesis
      by (fastforce simp: Atoi_port)
  qed
  have "fst (fst (ingressIteration p items sd d w)) \<noteq> Return \<and>
        fst (fst (ingressIteration p items sd d w)) \<noteq> Panic"
    by (auto simp: ingressIteration_def AskForStaticValue_def ReadString_def Let_def
          split: list.splits if_splits sum.splits option.splits prod.splits dest!: parts)
  with parts [of choice] show ?thesis by auto
qed

theorem matched_selection_parses_witness:
  "length (Split ''kube-system:dns:53'' CHR '':'') = 3 \<and>
   (\<exists>service \<in> set [dns, web]. \<exists>port \<in> set (Ports service).
      Split ''kube-system:dns:53'' CHR '':'' = [Namespace service, ServiceName service, FormatInt (sint port)] \<and>
      Atoi (Split ''kube-system:dns:53'' CHR '':'' ! 2) = Inr (sint port))"
proof -
  have a: "no_colon [dns, web]"
    by (simp add: no_colon_def service_fields)
  have b: "serviceLoop ''kube-system:dns:53'' [dns, web] False"
    by (simp add: service_fields triple_eval)
  from matched_selection_parses [OF a, of "''kube-system:dns:53''", THEN conjunct1, rule_format, OF b]
  show ?thesis .
qed





subsection \<open>The policy loop\<close>

lemma policyIteration_path:
  assumes "stdin w = path # rest" "path \<noteq> ''none''"
  shows "policyIteration w
           = (Continue, w\<lparr>stdin := rest, trace := trace w @ policy_events (files w) path\<rparr>)"
  using assms
  by (simp add: policyIteration_def AskForStaticValueOptional_def ReadString_def emit_def
        ReadFileContents_def policy_events_def split: option.splits)

lemma policyIteration_end:
  "stdin w = ''none'' # rest \<Longrightarrow>
   policyIteration w = (Break, w\<lparr>stdin := rest, trace := trace w @ [Prompt askPolicy]\<rparr>)"
  "stdin w = [] \<Longrightarrow> policyIteration w = (Exit, w\<lparr>trace := trace w @ [Prompt askPolicy]\<rparr>)"
  by (simp_all add: policyIteration_def AskForStaticValueOptional_def ReadString_def emit_def)

lemma policy_loop_returns:
  "''none'' \<notin> set paths \<Longrightarrow> stdin w = paths @ ''none'' # rest \<Longrightarrow>
   LoadAndCreatePolicyModules w
     = (Returned, w\<lparr>stdin := rest,
          trace := trace w @ concat (map (policy_events (files w)) paths) @ [Prompt askPolicy]\<rparr>)"
proof (induction paths arbitrary: w)
  case Nil
  then show ?case
    by (subst LoadAndCreatePolicyModules.simps) (simp add: policyIteration_end)
next
  case (Cons path paths)
  let ?w1 = "w\<lparr>stdin := paths @ ''none'' # rest, trace := trace w @ policy_events (files w) path\<rparr>"
  from Cons.prems have it: "policyIteration w = (Continue, ?w1)"
    by (intro policyIteration_path) auto
  from Cons.prems have "LoadAndCreatePolicyModules ?w1
     = (Returned, ?w1\<lparr>stdin := rest,
          trace := trace ?w1 @ concat (map (policy_events (files ?w1)) paths) @ [Prompt askPolicy]\<rparr>)"
    by (intro Cons.IH) auto
  then show ?case
    by (subst LoadAndCreatePolicyModules.simps) (simp add: it)
qed

lemma policy_loop_exits:
  "''none'' \<notin> set paths \<Longrightarrow> stdin w = paths \<Longrightarrow>
   LoadAndCreatePolicyModules w
     = (Exited, w\<lparr>stdin := [],
          trace := trace w @ concat (map (policy_events (files w)) paths) @ [Prompt askPolicy]\<rparr>)"
proof (induction paths arbitrary: w)
  case Nil
  then show ?case
    by (subst LoadAndCreatePolicyModules.simps) (simp add: policyIteration_end)
next
  case (Cons path paths)
  let ?w1 = "w\<lparr>stdin := paths, trace := trace w @ policy_events (files w) path\<rparr>"
  from Cons.prems have it: "policyIteration w = (Continue, ?w1)"
    by (intro policyIteration_path) auto
  from Cons.prems have "LoadAndCreatePolicyModules ?w1
     = (Exited, ?w1\<lparr>stdin := [],
          trace := trace ?w1 @ concat (map (policy_events (files ?w1)) paths) @ [Prompt askPolicy]\<rparr>)"
    by (intro Cons.IH) auto
  then show ?case
    by (subst LoadAndCreatePolicyModules.simps) (simp add: it)
qed

text \<open>
  C8. \<^verbatim>\<open>LoadAndCreatePolicyModules\<close> reads every path entered before the sentinel \<^verbatim>\<open>none\<close>, in
  order; a path that cannot be read adds an error message and the next question follows:
  neither the loop nor the wizard ends there. The loop returns at the first \<^verbatim>\<open>none\<close>, with
  the lines after it still unread; without a \<^verbatim>\<open>none\<close> it never returns (the input runs
  out and the prompt ends the process).
\<close>

theorem policy_loop_reads_until_none:
  assumes "''none'' \<notin> set paths"
  shows "(stdin w = paths @ ''none'' # rest \<longrightarrow>
            LoadAndCreatePolicyModules w
              = (Returned, w\<lparr>stdin := rest,
                   trace := trace w @ concat (map (policy_events (files w)) paths) @ [Prompt askPolicy]\<rparr>)) \<and>
         (stdin w = paths \<longrightarrow>
            LoadAndCreatePolicyModules w
              = (Exited, w\<lparr>stdin := [],
                   trace := trace w @ concat (map (policy_events (files w)) paths) @ [Prompt askPolicy]\<rparr>))"
  using policy_loop_returns [OF assms] policy_loop_exits [OF assms] by blast

theorem policy_loop_reads_until_none_witness:
  "LoadAndCreatePolicyModules policies
     = (Returned, policies\<lparr>stdin := [''y''],
          trace := [Prompt askPolicy, ReadFile ''missing.yaml'', Print ''Error reading module set file'',
                    Prompt askPolicy, ReadFile ''auth.yaml'',
                    Prompt askPolicy]\<rparr>) \<and>
   LoadAndCreatePolicyModules (policies\<lparr>stdin := [''missing.yaml'']\<rparr>)
     = (Exited, policies\<lparr>stdin := [],
          trace := [Prompt askPolicy, ReadFile ''missing.yaml'', Print ''Error reading module set file'',
                    Prompt askPolicy]\<rparr>)"
proof -
  have c: "''none'' \<notin> set [''missing.yaml'']" by simp
  have d: "stdin (policies\<lparr>stdin := [''missing.yaml'']\<rparr>) = [''missing.yaml'']" by simp
  have a: "''none'' \<notin> set [''missing.yaml'', ''auth.yaml'']" by simp
  have b: "stdin policies = [''missing.yaml'', ''auth.yaml''] @ ''none'' # [''y'']"
    by (simp add: policies_def)
  from policy_loop_reads_until_none [OF a, THEN conjunct1, rule_format, OF b]
       policy_loop_reads_until_none [OF c, THEN conjunct2, rule_format, OF d]
  show ?thesis
    by (simp add: policy_events_def) (simp add: policies_def blank_def)
qed

subsection \<open>The setup steps of the wizard\<close>

lemma posStringFrom_iff: "0 \<le> i \<Longrightarrow> posStringFrom i sl e = - 1 \<longleftrightarrow> e \<notin> set sl"
proof (induction sl arbitrary: i)
  case Nil
  then show ?case by simp
next
  case (Cons a sl)
  from Cons.prems have "0 \<le> i + 1" by simp
  from Cons.IH [OF this] Cons.prems show ?case by auto
qed

lemma containsString_iff: "containsString sl e \<longleftrightarrow> e \<in> set sl"
  by (simp add: containsString_def posString_def posStringFrom_iff)

text \<open>
  C7. The namespace step calls \<^verbatim>\<open>CreateNamespace\<close> exactly when the existence check reports the
  namespace absent. Against a cluster where the namespace exists (and the check works) the
  step makes the check and nothing else: no message, no creation, the same cluster. So
  after a first run on a working cluster the namespace exists and a second run adds the
  check alone.
\<close>

theorem namespace_step_idempotent:
  "calls_of (trace (stepEnsureNamespace p w))
     = calls_of (trace w) @ CheckNamespaceCall p ngrokNamespace #
         (if fst (fst (CheckNamespace p ngrokNamespace w)) then [] else [CreateNamespaceCall p ngrokNamespace]) \<and>
   (ngrokNamespace \<in> namespaces (cluster w) \<and> \<not> next_fault w \<longrightarrow>
      trace (stepEnsureNamespace p w) = trace w @ [Call (CheckNamespaceCall p ngrokNamespace)] \<and>
      cluster (stepEnsureNamespace p w) = cluster w) \<and>
   (faults w = [] \<longrightarrow>
      ngrokNamespace \<in> namespaces (cluster (stepEnsureNamespace p w)) \<and>
      trace (stepEnsureNamespace p (stepEnsureNamespace p w))
        = trace (stepEnsureNamespace p w) @ [Call (CheckNamespaceCall p ngrokNamespace)] \<and>
      cluster (stepEnsureNamespace p (stepEnsureNamespace p w)) = cluster (stepEnsureNamespace p w))"
  by (simp add: stepEnsureNamespace_def CheckNamespace_def CreateNamespace_def ngrokNamespace_def
        next_fault_def called_def emit_def Let_def split: list.splits)

theorem namespace_step_idempotent_witness:
  "trace (stepEnsureNamespace ''minikube'' blank)
     = [Call (CheckNamespaceCall ''minikube'' ngrokNamespace), Call (CreateNamespaceCall ''minikube'' ngrokNamespace)] \<and>
   trace (stepEnsureNamespace ''minikube'' (stepEnsureNamespace ''minikube'' blank))
     = [Call (CheckNamespaceCall ''minikube'' ngrokNamespace), Call (CreateNamespaceCall ''minikube'' ngrokNamespace),
        Call (CheckNamespaceCall ''minikube'' ngrokNamespace)] \<and>
   cluster (stepEnsureNamespace ''minikube'' (stepEnsureNamespace ''minikube'' blank))
     = cluster (stepEnsureNamespace ''minikube'' blank) \<and>
   trace (stepEnsureNamespace ''minikube''
            (blank\<lparr>cluster := (cluster blank)\<lparr>namespaces := {ngrokNamespace}\<rparr>\<rparr>))
     = [Call (CheckNamespaceCall ''minikube'' ngrokNamespace)]"
proof -
  have a: "faults blank = []" by (simp add: blank_def)
  have b: "trace (stepEnsureNamespace ''minikube'' blank)
     = [Call (CheckNamespaceCall ''minikube'' ngrokNamespace), Call (CreateNamespaceCall ''minikube'' ngrokNamespace)]"
    by (simp add: stepEnsureNamespace_def CheckNamespace_def CreateNamespace_def ngrokNamespace_def
          next_fault_def called_def emit_def blank_def Let_def)
  have c: "ngrokNamespace \<in> namespaces (cluster (blank\<lparr>cluster := (cluster blank)\<lparr>namespaces := {ngrokNamespace}\<rparr>\<rparr>)) \<and>
           \<not> next_fault (blank\<lparr>cluster := (cluster blank)\<lparr>namespaces := {ngrokNamespace}\<rparr>\<rparr>)"
    by (simp add: next_fault_def blank_def)
  from namespace_step_idempotent [of "''minikube''" blank, THEN conjunct2, THEN conjunct2, rule_format, OF a]
       namespace_step_idempotent [of "''minikube''", THEN conjunct2, THEN conjunct1, rule_format, OF c] b
  show ?thesis by (simp add: blank_def)
qed

text \<open>
  C3. When the operator accepts the credential question and enters two values, the step
  calls \<^verbatim>\<open>CreateSecret\<close> once, for the secret \<^verbatim>\<open>ngrok-ingress-controller-credentials\<close>, with
  exactly the two keys \<^verbatim>\<open>AUTHTOKEN\<close> and \<^verbatim>\<open>API_KEY\<close> bound to the values entered. When that call
  works, the secret stored afterwards is this bundle, whatever the cluster held under the
  name before: no earlier key or value is left.
\<close>

theorem credentials_replaced:
  assumes "stdin w = answer # authtoken # apikey # rest" and "answer \<in> set posResponses"
  shows "fst (stepReconcileCredentials p w) = Returned \<and>
         stdin (snd (stepReconcileCredentials p w)) = rest \<and>
         calls_of (trace (snd (stepReconcileCredentials p w)))
           = calls_of (trace w) @
               [CheckSecretExistsCall p (fst credentials) (snd credentials),
                CreateSecretCall p (fst credentials) (snd credentials)
                  [''AUTHTOKEN'' \<mapsto> authtoken, ''API_KEY'' \<mapsto> apikey] ngrokLabels] \<and>
         (\<not> next_fault (w\<lparr>faults := tl (faults w)\<rparr>) \<longrightarrow>
            secrets (cluster (snd (stepReconcileCredentials p w))) credentials
              = Some \<lparr>Data = [''AUTHTOKEN'' \<mapsto> authtoken, ''API_KEY'' \<mapsto> apikey], Labels = ngrokLabels\<rparr>)"
proof -
  have ask: "AskForYesNoConfirmation s posResponses negResponses v
               = (Some True, v\<lparr>stdin := authtoken # apikey # rest,
                                 trace := trace v @ [Prompt (s @ '' [y/n]: '')]\<rparr>)"
    if "stdin v = stdin w" for s v
    using that assms
    by (subst AskForYesNoConfirmation.simps)
       (simp add: ReadString_def emit_def containsString_iff)
  show ?thesis
    using assms(1)
    by (cases "faults w"; cases "tl (faults w)")
       (simp_all add: stepReconcileCredentials_def CheckSecretExists_def Let_def credentials_def
          ask called_def emit_def AskForStaticValue_def ReadString_def CreateSecret_def next_fault_def)
qed

theorem credentials_replaced_witness:
  "fst (stepReconcileCredentials ''minikube'' old_secret) = Returned \<and>
   secrets (cluster (snd (stepReconcileCredentials ''minikube'' old_secret))) credentials
     = Some \<lparr>Data = [''AUTHTOKEN'' \<mapsto> ''c'', ''API_KEY'' \<mapsto> ''d''], Labels = ngrokLabels\<rparr>"
proof -
  have a: "stdin old_secret = ''y'' # ''c'' # ''d'' # []"
    by (simp add: old_secret_def)
  have b: "''y'' \<in> set posResponses"
    by (simp add: posResponses_def)
  have c: "\<not> next_fault (old_secret\<lparr>faults := tl (faults old_secret)\<rparr>)"
    by (simp add: next_fault_def old_secret_def blank_def)
  from credentials_replaced [OF a b, of "''minikube''"] c
  show ?thesis by simp
qed

subsection \<open>Errors of the cluster during the setup steps\<close>

lemma reported_append [simp]: "reported (xs @ ys) = reported xs + reported ys"
  by (induction xs rule: reported.induct) simp_all

lemma AskForYesNoConfirmation_frame:
  "AskForYesNoConfirmation s pos neg w = (r, w') \<Longrightarrow>
   cluster w' = cluster w \<and> faults w' = faults w \<and> files w' = files w \<and>
   calls_of (trace w') = calls_of (trace w) \<and> reported (trace w') = reported (trace w)"
proof (induction s pos neg w arbitrary: r w' rule: AskForYesNoConfirmation.induct)
  case (1 s pos neg w)
  show ?case
  proof (cases "stdin w")
    case Nil
    with "1.prems" show ?thesis
      by (subst (asm) AskForYesNoConfirmation.simps)
         (auto simp: ReadString_def emit_def)
  next
    case (Cons l ls)
    show ?thesis
    proof (cases "containsString pos l \<or> containsString neg l")
      case True
      with Cons "1.prems" show ?thesis
        by (subst (asm) AskForYesNoConfirmation.simps)
           (auto simp: ReadString_def emit_def split: if_splits)
    next
      case False
      let ?w1 = "(emit (Prompt (s @ '' [y/n]: '')) w)\<lparr>stdin := ls\<rparr>"
      have rs: "ReadString (emit (Prompt (s @ '' [y/n]: '')) w) = (Some l, ?w1)"
        using Cons by (simp add: ReadString_def emit_def)
      from "1.prems" False rs
      have "AskForYesNoConfirmation s pos neg (emit (Print ''Please type yes or no:'') ?w1) = (r, w')"
        by (subst (asm) AskForYesNoConfirmation.simps) simp
      from "1.IH" [OF rs [symmetric] refl _ _ this] False
      show ?thesis
        by (simp add: emit_def setup_errors_def)
    qed
  qed
qed

lemma AskForYesNoConfirmation_stdin:
  "stdin w = stdin v \<Longrightarrow>
   fst (AskForYesNoConfirmation s pos neg w) = fst (AskForYesNoConfirmation s' pos neg v) \<and>
   stdin (snd (AskForYesNoConfirmation s pos neg w)) = stdin (snd (AskForYesNoConfirmation s' pos neg v))"
proof (induction s pos neg w arbitrary: v rule: AskForYesNoConfirmation.induct)
  case (1 s pos neg w)
  show ?case
  proof (cases "stdin w")
    case Nil
    with "1.prems" show ?thesis
      by (simp add: AskForYesNoConfirmation.simps [of s pos neg w]
            AskForYesNoConfirmation.simps [of s' pos neg v] ReadString_def emit_def)
  next
    case (Cons l ls)
    show ?thesis
    proof (cases "containsString pos l \<or> containsString neg l")
      case True
      with Cons "1.prems" show ?thesis
        by (auto simp add: AskForYesNoConfirmation.simps [of s pos neg w]
              AskForYesNoConfirmation.simps [of s' pos neg v] ReadString_def emit_def)
    next
      case False
      let ?w1 = "(emit (Prompt (s @ '' [y/n]: '')) w)\<lparr>stdin := ls\<rparr>"
      let ?v1 = "(emit (Prompt (s' @ '' [y/n]: '')) v)\<lparr>stdin := ls\<rparr>"
      have rs: "ReadString (emit (Prompt (s @ '' [y/n]: '')) w) = (Some l, ?w1)"
        using Cons by (simp add: ReadString_def emit_def)
      have rv: "ReadString (emit (Prompt (s' @ '' [y/n]: '')) v) = (Some l, ?v1)"
        using Cons "1.prems" by (simp add: ReadString_def emit_def)
      have "stdin (emit (Print ''Please type yes or no:'') ?w1) = stdin (emit (Print ''Please type yes or no:'') ?v1)"
        by (simp add: emit_def)
      from "1.IH" [OF rs [symmetric] refl _ _ this] False
      show ?thesis
        by (simp add: AskForYesNoConfirmation.simps [of s pos neg w]
              AskForYesNoConfirmation.simps [of s' pos neg v] rs rv)
    qed
  qed
qed

lemma yn_simps:
  "fst (AskForYesNoConfirmation s pos neg w) = yn_answer pos neg (stdin w)"
  "stdin (snd (AskForYesNoConfirmation s pos neg w)) = yn_rest pos neg (stdin w)"
  using AskForYesNoConfirmation_stdin [of w "blank\<lparr>stdin := stdin w\<rparr>" s pos neg "[]"]
  by (simp_all add: yn_answer_def yn_rest_def)

lemma stepEnsureNamespace_stdin: "stdin (stepEnsureNamespace p w) = stdin w"
  by (simp add: stepEnsureNamespace_def CheckNamespace_def CreateNamespace_def called_def emit_def Let_def)

lemma facade_stdin:
  "stdin (snd (CheckNamespace p n w)) = stdin w"
  "stdin (snd (CreateNamespace p n w)) = stdin w"
  "stdin (snd (CheckSecretExists p n x w)) = stdin w"
  "stdin (snd (CreateSecret p n x dv lb w)) = stdin w"
  "stdin (snd (ListAllServices p w)) = stdin w"
  "stdin (snd (CreateIngress p n x d sv pt cl w)) = stdin w"
  "stdin (emit e w) = stdin w"
  by (simp_all add: CheckNamespace_def CreateNamespace_def CheckSecretExists_def CreateSecret_def
        ListAllServices_def CreateIngress_def called_def emit_def)

lemma AskForStaticValue_simps:
  "fst (AskForStaticValue s w) = (case stdin w of [] \<Rightarrow> None | l # ls \<Rightarrow> Some l)"
  "stdin (snd (AskForStaticValue s w)) = tl (stdin w)"
  by (simp_all add: AskForStaticValue_def ReadString_def emit_def split: list.splits)

lemma stepReconcileCredentials_outcome:
  "fst (stepReconcileCredentials p w) =
     (case yn_answer posResponses negResponses (stdin w) of
        None \<Rightarrow> Exited
      | Some False \<Rightarrow> Returned
      | Some True \<Rightarrow>
          (case yn_rest posResponses negResponses (stdin w) of
             a # k # rest \<Rightarrow> Returned | _ \<Rightarrow> Exited))"
  "stdin (snd (stepReconcileCredentials p w)) =
     (case yn_answer posResponses negResponses (stdin w) of
        Some True \<Rightarrow> drop 2 (yn_rest posResponses negResponses (stdin w))
      | _ \<Rightarrow> yn_rest posResponses negResponses (stdin w))"
  by (simp_all add: stepReconcileCredentials_def Let_def split_beta yn_simps facade_stdin
        AskForStaticValue_simps split: option.splits list.splits bool.splits)

lemma stepReconcileCredentials_stdin:
  "stdin w = stdin v \<Longrightarrow>
   fst (stepReconcileCredentials p w) = fst (stepReconcileCredentials p v) \<and>
   stdin (snd (stepReconcileCredentials p w)) = stdin (snd (stepReconcileCredentials p v))"
  by (simp add: stepReconcileCredentials_outcome cong: option.case_cong bool.case_cong list.case_cong)

lemma count_list_append: "count_list (xs @ ys) x = count_list xs x + count_list ys x"
  by (induction xs) simp_all

lemma accounted_trans:
  assumes "accounted a b" "accounted b c"
  shows "accounted a c"
proof -
  from assms(1) obtain cs where 1: "calls_of (trace b) = calls_of (trace a) @ cs"
    "faults b = drop (length cs) (faults a)"
    "reported (trace b) = reported (trace a) + count_list (take (length cs) (faults a)) True"
    unfolding accounted_def by blast
  from assms(2) obtain ds where 2: "calls_of (trace c) = calls_of (trace b) @ ds"
    "faults c = drop (length ds) (faults b)"
    "reported (trace c) = reported (trace b) + count_list (take (length ds) (faults b)) True"
    unfolding accounted_def by blast
  have "take (length (cs @ ds)) (faults a)
          = take (length cs) (faults a) @ take (length ds) (drop (length cs) (faults a))"
    by (simp add: take_add)
  then have "count_list (take (length (cs @ ds)) (faults a)) True
          = count_list (take (length cs) (faults a)) True + count_list (take (length ds) (faults b)) True"
    by (simp add: count_list_append 1(2))
  moreover have "faults c = drop (length (cs @ ds)) (faults a)"
    by (simp add: 1(2) 2(2) add.commute)
  moreover have "calls_of (trace c) = calls_of (trace a) @ (cs @ ds)"
    by (simp add: 1(1) 2(1))
  ultimately show ?thesis
    unfolding accounted_def using 1(3) 2(3) by (intro exI [of _ "cs @ ds"]) simp
qed

lemma accounted_quiet:
  assumes "faults b = faults a" "calls_of (trace b) = calls_of (trace a)"
    "reported (trace b) = reported (trace a)"
  shows "accounted a b"
  unfolding accounted_def using assms by (intro exI [of _ "[]"]) simp

lemma accounted_call:
  assumes "faults u = tl (faults w)" "trace u = trace w @ [Call c]" "m \<in> set setup_errors"
  shows "accounted w (if next_fault w then emit (Print m) u else u)"
  unfolding accounted_def using assms
  by (intro exI [of _ "[c]"]) (cases "faults w"; simp add: emit_def next_fault_def)

lemma called_effect:
  "faults (called c w) = tl (faults w)" "trace (called c w) = trace w @ [Call c]"
  by (simp_all add: called_def emit_def split: list.splits)

lemma stepEnsureNamespace_accounted: "accounted w (stepEnsureNamespace p w)"
proof -
  let ?ns = "''ngrok-ingress-controller''"
  let ?w1 = "called (CheckNamespaceCall p ?ns) w"
  let ?w2 = "if next_fault w then emit (Print (setup_errors ! 0)) ?w1 else ?w1"
  let ?w3 = "called (CreateNamespaceCall p ?ns) ?w2"
  let ?w4 = "if next_fault ?w2 then emit (Print (setup_errors ! 1)) ?w3 else ?w3"
  have a: "accounted w ?w2"
    by (rule accounted_call) (simp_all add: called_effect setup_errors_def)
  have b: "accounted ?w2 ?w4"
    by (rule accounted_call) (simp_all add: called_effect setup_errors_def)
  have c: "faults (stepEnsureNamespace p w) = faults ?w2 \<and> trace (stepEnsureNamespace p w) = trace ?w2
        \<or> faults (stepEnsureNamespace p w) = faults ?w4 \<and> trace (stepEnsureNamespace p w) = trace ?w4"
    by (simp add: stepEnsureNamespace_def CheckNamespace_def CreateNamespace_def Let_def
          setup_errors_def called_def emit_def next_fault_def)
  then show ?thesis
  proof
    assume "faults (stepEnsureNamespace p w) = faults ?w2 \<and> trace (stepEnsureNamespace p w) = trace ?w2"
    then have "accounted ?w2 (stepEnsureNamespace p w)"
      by (intro accounted_quiet) simp_all
    with a show ?thesis by (rule accounted_trans)
  next
    assume "faults (stepEnsureNamespace p w) = faults ?w4 \<and> trace (stepEnsureNamespace p w) = trace ?w4"
    then have "accounted ?w4 (stepEnsureNamespace p w)"
      by (intro accounted_quiet) simp_all
    with accounted_trans [OF a b] show ?thesis by (rule accounted_trans)
  qed
qed

lemma accounted_one:
  assumes "faults u = tl (faults w)" "calls_of (trace u) = calls_of (trace w) @ [c]"
    "reported (trace u) = reported (trace w) + (if next_fault w then 1 else 0)"
  shows "accounted w u"
  unfolding accounted_def using assms
  by (intro exI [of _ "[c]"]) (cases "faults w"; simp add: next_fault_def)

lemma CreateSecret_accounted:
  assumes "m \<in> set setup_errors"
  shows "accounted w (snd (case CreateSecret p n x dv lb w of
            (Some e, w6) \<Rightarrow> (Returned, emit (Print m) w6)
          | (None, w6) \<Rightarrow> (Returned, w6)))"
  using assms
  by (intro accounted_one [where c = "CreateSecretCall p n x dv lb"])
     (simp_all add: CreateSecret_def called_def emit_def split: list.splits)

lemma AskForStaticValue_quiet:
  assumes "AskForStaticValue s w = (r, w')"
  shows "faults w' = faults w" "calls_of (trace w') = calls_of (trace w)"
    "reported (trace w') = reported (trace w)"
  using assms
  by (auto simp: AskForStaticValue_def ReadString_def emit_def split: list.splits)

lemma credentials_tail_accounted:
  assumes e: "e4 \<in> set setup_errors"
  shows "accounted u (snd (case AskForYesNoConfirmation m posResponses negResponses u of
      (None, w3) \<Rightarrow> (Exited, w3)
    | (Some setCredentials, w3) \<Rightarrow>
        if setCredentials
        then (case AskForStaticValue a1 w3 of
                (None, w4) \<Rightarrow> (Exited, w4)
              | (Some ngrokAuthToken, w4) \<Rightarrow>
                  (case AskForStaticValue a2 w4 of
                     (None, w5) \<Rightarrow> (Exited, w5)
                   | (Some ngrokAPIKey, w5) \<Rightarrow>
                       (case CreateSecret p n x (dv ngrokAuthToken ngrokAPIKey) lb w5 of
                          (Some err', w6) \<Rightarrow> (Returned, emit (Print e4) w6)
                        | (None, w6) \<Rightarrow> (Returned, w6))))
        else (Returned, w3)))"
proof -
  obtain r w3 where y: "AskForYesNoConfirmation m posResponses negResponses u = (r, w3)"
    by (cases "AskForYesNoConfirmation m posResponses negResponses u")
  from AskForYesNoConfirmation_frame [OF y] have q3: "accounted u w3"
    by (intro accounted_quiet) simp_all
  obtain t w4 where a: "AskForStaticValue a1 w3 = (t, w4)"
    by (cases "AskForStaticValue a1 w3")
  from AskForStaticValue_quiet [OF a] have "accounted w3 w4"
    by (intro accounted_quiet)
  with q3 have q4: "accounted u w4" by (rule accounted_trans)
  obtain k w5 where b: "AskForStaticValue a2 w4 = (k, w5)"
    by (cases "AskForStaticValue a2 w4")
  from AskForStaticValue_quiet [OF b] have "accounted w4 w5"
    by (intro accounted_quiet)
  with q4 have q5: "accounted u w5" by (rule accounted_trans)
  show ?thesis
  proof (cases r)
    case None
    with y q3 show ?thesis by simp
  next
    case (Some setCredentials)
    show ?thesis
    proof (cases setCredentials)
      case False
      with Some y q3 show ?thesis by simp
    next
      case True
      show ?thesis
      proof (cases t)
        case None
        with Some True y a q4 show ?thesis by simp
      next
        case tok: (Some ngrokAuthToken)
        show ?thesis
        proof (cases k)
          case None
          with Some True tok y a b q5 show ?thesis by simp
        next
          case key: (Some ngrokAPIKey)
          from accounted_trans [OF q5 CreateSecret_accounted [OF e]]
          show ?thesis
            by (simp only: y a b Some True tok key prod.case option.case if_True)
        qed
      qed
    qed
  qed
qed

lemma stepReconcileCredentials_accounted: "accounted w (snd (stepReconcileCredentials p w))"
proof -
  let ?c = "CheckSecretExistsCall p ''ngrok-ingress-controller'' ''ngrok-ingress-controller-credentials''"
  have a: "accounted w (if next_fault w then emit (Print (setup_errors ! 2)) (called ?c w) else called ?c w)"
    by (rule accounted_call) (simp_all add: called_effect setup_errors_def)
  show ?thesis
  proof (cases "next_fault w")
    case True
    with a have "accounted w (emit (Print (setup_errors ! 2)) (called ?c w))" by simp
    then show ?thesis
      using True
      apply (simp add: stepReconcileCredentials_def CheckSecretExists_def Let_def)
      apply ((intro conjI impI)?; rule accounted_trans [OF _ credentials_tail_accounted])
         apply (simp_all add: setup_errors_def)
      done
  next
    case False
    with a have "accounted w (called ?c w)" by simp
    then show ?thesis
      using False
      apply (simp add: stepReconcileCredentials_def CheckSecretExists_def Let_def)
      apply ((intro conjI impI)?; rule accounted_trans [OF _ credentials_tail_accounted])
         apply (simp_all add: setup_errors_def)
      done
  qed
qed

text \<open>
  C2, amended. An error returned by a call of the cluster during the setup steps (namespace
  check, namespace creation, secret check, secret creation) does not end the run. The
  namespace step reads no input and always completes; whether the credentials step completes
  (it ends the run only when the input runs out) and which lines it leaves to the later
  steps depend on the lines the operator types alone, not on the cluster and not on which
  calls fail; and the two steps write one error message for every call that failed.
\<close>

theorem setup_errors_do_not_end_the_run:
  "stdin (stepEnsureNamespace p w) = stdin w \<and>
   (stdin w = stdin v \<longrightarrow>
      fst (stepReconcileCredentials p w) = fst (stepReconcileCredentials p v) \<and>
      stdin (snd (stepReconcileCredentials p w)) = stdin (snd (stepReconcileCredentials p v))) \<and>
   accounted w (snd (stepReconcileCredentials p (stepEnsureNamespace p w)))"
  using stepEnsureNamespace_stdin [of p w] stepReconcileCredentials_stdin [of w v p]
    accounted_trans [OF stepEnsureNamespace_accounted stepReconcileCredentials_accounted, of w p p]
  by blast

theorem setup_errors_do_not_end_the_run_witness:
  "fst (stepReconcileCredentials ''minikube'' all_fail)
     = fst (stepReconcileCredentials ''minikube'' (all_fail\<lparr>faults := []\<rparr>)) \<and>
   stdin (snd (stepReconcileCredentials ''minikube'' all_fail))
     = stdin (snd (stepReconcileCredentials ''minikube'' (all_fail\<lparr>faults := []\<rparr>)))"
proof -
  have a: "stdin all_fail = stdin (all_fail\<lparr>faults := []\<rparr>)" by simp
  from setup_errors_do_not_end_the_run [of "''minikube''" all_fail "all_fail\<lparr>faults := []\<rparr>",
      THEN conjunct2, THEN conjunct1, rule_format, OF a]
  show ?thesis .
qed

text \<open>
  C2, as stated, fails: on a cluster where all four calls of the setup steps fail, the
  wizard writes the four messages and still asks every later question (ingress, domain
  strategy, domain, policy modules, service mapping) and ends with its success messages.
\<close>

theorem facade_errors_do_not_stop_the_wizard_counterexample:
  "fst (ngrokConfigure ''minikube'' all_fail) = Returned \<and>
   trace (snd (ngrokConfigure ''minikube'' all_fail)) =
     [Call (CheckNamespaceCall ''minikube'' ngrokNamespace),
      Print ''Error checking for existing `ngrok-ingress-controller` namespace'',
      Call (CreateNamespaceCall ''minikube'' ngrokNamespace),
      Print ''Error creating `ngrok-ingress-controller` namespace'',
      Call (CheckSecretExistsCall ''minikube'' ngrokNamespace ''ngrok-ingress-controller-credentials''),
      Print ''Error checking for existing `ngrok-ingress-controller-credentials secret`'',
      Prompt ''Would you like to set ngrok credentials? [y/n]: '',
      Prompt ''-- Enter ngrok authtoken: '',
      Prompt ''-- Enter ngrok apikey: '',
      Call (CreateSecretCall ''minikube'' ngrokNamespace ''ngrok-ingress-controller-credentials''
              [''AUTHTOKEN'' \<mapsto> ''token'', ''API_KEY'' \<mapsto> ''key''] ngrokLabels),
      Print ''ERROR creating `ngrok-ingress-controller-credentials` secret'',
      Prompt ''Would you like to configure ingress for existing services in your minikube cluster? [y/n]: '',
      Prompt ''Would you like to use a single domain for all services or a unique domain for each? Free accounts can only use a single domain.'',
      Prompt askDomain,
      Prompt ''Would you like to create a policy module that can be used to secure ingress to services with authentication? [y/n]: '',
      Prompt ''Would you like to create ingress to existing services? [y/n]: '',
      Print ''Congrats, you have configured ingress with ngrok in your minikube cluster.'',
      Print ''ngrok was successfully configured'']"
  by (simp add: ngrokConfigure_def stepEnsureNamespace_def stepReconcileCredentials_def
        stepConfigureIngress_def CheckNamespace_def CreateNamespace_def CheckSecretExists_def
        CreateSecret_def next_fault_def called_def emit_def AskForYesNoConfirmation.simps
        AskForChoice.simps AskForStaticValue_def AskForSingleOrMultipleDomainChoice_def
        ReadString_def posResponses_def negResponses_def containsString_def posString_def
        all_fail_def blank_def ngrokNamespace_def Let_def)

subsection \<open>The domain strategy\<close>

lemma ingress_domains_append [simp]:
  "ingress_domains (xs @ ys) = ingress_domains xs @ ingress_domains ys"
  by (induction xs rule: ingress_domains.induct) simp_all

lemma ingress_domains_calls: "ingress_domains es = ingress_domains (map Call (calls_of es))"
  by (induction es rule: ingress_domains.induct) simp_all

lemma carries_quiet: "calls_of (trace w') = calls_of (trace w) \<Longrightarrow> carries d w w'"
  unfolding carries_def
  by (intro exI [of _ 0]) (simp add: ingress_domains_calls [of "trace w'"] ingress_domains_calls [of "trace w"])

lemma carries_same: "ingress_domains (trace w') = ingress_domains (trace w) \<Longrightarrow> carries d w w'"
  unfolding carries_def by (intro exI [of _ 0]) simp

lemma carries_trans:
  assumes "carries d a b" "carries d b c"
  shows "carries d a c"
proof -
  from assms obtain n m where "ingress_domains (trace b) = ingress_domains (trace a) @ replicate n d"
    "ingress_domains (trace c) = ingress_domains (trace b) @ replicate m d"
    unfolding carries_def by blast
  then have "ingress_domains (trace c) = ingress_domains (trace a) @ replicate (n + m) d"
    by (simp add: replicate_add)
  then show ?thesis unfolding carries_def by blast
qed

lemma ingressIteration_single:
  assumes "ingressIteration p items True d w = ((c, d'), w')"
  shows "d' = d \<and> carries d w w'"
proof -
  have "d' = d"
    using assms
    by (auto simp: ingressIteration_def AskForStaticValue_def ReadString_def Let_def
          split: list.splits if_splits sum.splits prod.splits option.splits)
  moreover have "calls_of (trace w') = calls_of (trace w) \<or>
         (\<exists>ns nm sv pt cl. calls_of (trace w') = calls_of (trace w) @ [CreateIngressCall p ns nm d sv pt cl])"
    using assms
    by (auto simp: ingressIteration_def AskForStaticValue_def ReadString_def Let_def emit_def
          CreateIngress_def called_def
          split: list.splits if_splits sum.splits option.splits)
  then have "carries d w w'"
  proof
    assume "calls_of (trace w') = calls_of (trace w)"
    then show ?thesis by (rule carries_quiet)
  next
    assume "\<exists>ns nm sv pt cl. calls_of (trace w') = calls_of (trace w) @ [CreateIngressCall p ns nm d sv pt cl]"
    then obtain ns nm sv pt cl where
      "calls_of (trace w') = calls_of (trace w) @ [CreateIngressCall p ns nm d sv pt cl]" by blast
    then have "ingress_domains (trace w') = ingress_domains (trace w) @ [d]"
      by (simp add: ingress_domains_calls [of "trace w'"] ingress_domains_calls [of "trace w"])
    then show ?thesis unfolding carries_def by (intro exI [of _ 1]) simp
  qed
  ultimately show ?thesis by simp
qed

lemma AddIngressLoop_single: "carries d w (snd (AddIngressLoop p items True d w))"
proof (induction p items "True" d w rule: AddIngressLoop.induct)
  case (1 profile items domain w)
  obtain c d' w' where it: "ingressIteration profile items True domain w = ((c, d'), w')"
    by (metis prod.exhaust)
  from ingressIteration_single [OF it] have d: "d' = domain" and cw: "carries domain w w'"
    by simp_all
  show ?case
  proof (cases c)
    case Continue
    from "1.hyps" [OF it [symmetric, unfolded d] refl, unfolded Continue] Continue it d
    have "carries domain w' (snd (AddIngressLoop profile items True domain w'))" by simp
    with cw have "carries domain w (snd (AddIngressLoop profile items True domain w'))"
      by (rule carries_trans)
    with Continue it d show ?thesis
      by (subst AddIngressLoop.simps) simp
  qed (use it cw in \<open>subst AddIngressLoop.simps, simp\<close>)+
qed

lemma AddIngressToServices_single: "carries d w (snd (AddIngressToServices p True d w))"
proof (cases "next_fault w")
  case True
  then show ?thesis
    by (simp add: AddIngressToServices_def ListAllServices_def called_def emit_def carries_same)
next
  case False
  let ?w1 = "emit (Print (''Services:'' @ [CHR 0x0A] @ serviceString (services (cluster w))))
               (called (ListAllServicesCall p) w)"
  have "carries d w ?w1"
    by (rule carries_same) (simp add: called_def emit_def)
  from carries_trans [OF this AddIngressLoop_single] False show ?thesis
    by (simp add: AddIngressToServices_def ListAllServices_def)
qed

lemma policyIteration_calls:
  "policyIteration w = (c, w') \<Longrightarrow> calls_of (trace w') = calls_of (trace w)"
  by (auto simp: policyIteration_def AskForStaticValueOptional_def ReadString_def
        ReadFileContents_def emit_def split: list.splits if_splits option.splits)

lemma LoadAndCreatePolicyModules_calls:
  "calls_of (trace (snd (LoadAndCreatePolicyModules w))) = calls_of (trace w)"
proof (induction w rule: LoadAndCreatePolicyModules.induct)
  case (1 w)
  obtain c w' where it: "policyIteration w = (c, w')"
    by (cases "policyIteration w")
  show ?case
  proof (cases c)
    case Continue
    from "1.IH" [OF it [symmetric] Continue] policyIteration_calls [OF it] Continue it
    show ?thesis
      by (subst LoadAndCreatePolicyModules.simps) simp
  qed (use it policyIteration_calls [OF it] in \<open>subst LoadAndCreatePolicyModules.simps, simp\<close>)+
qed

lemma ingress_tail_single:
  "carries d u (snd (case AskForYesNoConfirmation m posResponses negResponses u of
      (None, w4) \<Rightarrow> (Exited, w4)
    | (Some configurePolicyModule, w4) \<Rightarrow>
        (case (if configurePolicyModule then LoadAndCreatePolicyModules w4
               else (Returned, w4)) of
           (Returned, w5) \<Rightarrow>
             (case AskForYesNoConfirmation m' posResponses negResponses w5 of
                (None, w6) \<Rightarrow> (Exited, w6)
              | (Some configureIngressToServices, w6) \<Rightarrow>
                  (case (if configureIngressToServices
                         then AddIngressToServices p True d w6
                         else (Returned, w6)) of
                     (Returned, w7) \<Rightarrow> (Returned, emit (Print msg) w7)
                   | (other, w7) \<Rightarrow> (other, w7)))
         | (other, w5) \<Rightarrow> (other, w5))))"
proof -
  obtain r w4 where y: "AskForYesNoConfirmation m posResponses negResponses u = (r, w4)"
    by (cases "AskForYesNoConfirmation m posResponses negResponses u")
  from AskForYesNoConfirmation_frame [OF y] have q4: "carries d u w4"
    by (intro carries_quiet) simp
  define pm where "pm = (if r = Some True then LoadAndCreatePolicyModules w4 else (Returned, w4))"
  obtain o5 w5 where p5: "pm = (o5, w5)" by (cases pm)
  have "calls_of (trace w5) = calls_of (trace w4)"
    using p5 LoadAndCreatePolicyModules_calls [of w4]
    by (auto simp: pm_def split: if_splits)
  then have "carries d w4 w5" by (rule carries_quiet)
  with q4 have q5: "carries d u w5" by (rule carries_trans)
  obtain r' w6 where y': "AskForYesNoConfirmation m' posResponses negResponses w5 = (r', w6)"
    by (cases "AskForYesNoConfirmation m' posResponses negResponses w5")
  from AskForYesNoConfirmation_frame [OF y'] have "carries d w5 w6"
    by (intro carries_quiet) simp
  with q5 have q6: "carries d u w6" by (rule carries_trans)
  define ai where "ai = (if r' = Some True then AddIngressToServices p True d w6 else (Returned, w6))"
  obtain o7 w7 where p7: "ai = (o7, w7)" by (cases ai)
  have "carries d w6 w7"
    using p7 AddIngressToServices_single [of d w6 p] carries_quiet [of w6 w6 d]
    by (auto simp: ai_def split: if_splits)
  with q6 have q7: "carries d u w7" by (rule carries_trans)
  have "carries d w7 (emit (Print msg) w7)"
    by (rule carries_quiet) (simp add: emit_def)
  with q7 have q8: "carries d u (emit (Print msg) w7)" by (rule carries_trans)
  show ?thesis
  proof (cases r)
    case None
    with y q4 show ?thesis by simp
  next
    case (Some b)
    with p5 have pm: "(if b then LoadAndCreatePolicyModules w4 else (Returned, w4)) = (o5, w5)"
      by (cases b) (simp_all add: pm_def)
    show ?thesis
    proof (cases "o5 = Returned")
      case False
      with Some y pm q5 show ?thesis by (cases o5) simp_all
    next
      case True
      show ?thesis
      proof (cases r')
        case None
        with Some y pm True y' q6 show ?thesis by simp
      next
        case s': (Some b')
        with p7 have ai: "(if b' then AddIngressToServices p True d w6 else (Returned, w6)) = (o7, w7)"
          by (cases b') (simp_all add: ai_def)
        from Some y pm True y' s' ai q7 q8 show ?thesis
          by (cases o7) simp_all
      qed
    qed
  qed
qed

lemma stepConfigureIngress_single:
  assumes "stdin w = answer # ''single'' # d # rest" "answer \<in> set posResponses"
  shows "carries d w (snd (stepConfigureIngress p w))"
  using assms
  apply (simp add: stepConfigureIngress_def AskForYesNoConfirmation.simps [of _ _ _ w]
      ReadString_def emit_def containsString_iff AskForSingleOrMultipleDomainChoice_def
      AskForChoice.simps AskForStaticValue_def)
  apply (rule carries_trans [OF _ ingress_tail_single])
  apply (rule carries_quiet)
  apply simp
  done

lemma ingressIteration_multiple:
  assumes "stdin w = choice # d # rest" "choice \<noteq> ''none''" "choice \<in> set (rendered items)"
  shows "\<exists>evs. trace (snd (ingressIteration p items False prev w))
                  = trace w @ Prompt askService # Prompt askDomain # evs \<and>
               (ingress_domains evs = [] \<or> ingress_domains evs = [d]) \<and>
               (no_colon items \<longrightarrow> ingress_domains evs = [d])"
    and "stdin (snd (ingressIteration p items False prev w)) = rest"
proof -
  from assms show "stdin (snd (ingressIteration p items False prev w)) = rest"
    by (auto simp: ingressIteration_def AskForStaticValue_def ReadString_def emit_def serviceLoop_iff
          Let_def CreateIngress_def called_def split: sum.splits)
  show "\<exists>evs. trace (snd (ingressIteration p items False prev w))
                  = trace w @ Prompt askService # Prompt askDomain # evs \<and>
               (ingress_domains evs = [] \<or> ingress_domains evs = [d]) \<and>
               (no_colon items \<longrightarrow> ingress_domains evs = [d])"
  proof (cases "no_colon items")
  case False
  with assms show ?thesis
    by (auto simp: ingressIteration_def AskForStaticValue_def ReadString_def emit_def serviceLoop_iff
          Let_def CreateIngress_def called_def split: sum.splits)
next
  case True
  from rendered_Split [OF True assms(3)] obtain service :: Service and port :: "32 word" where
    "Split choice CHR '':'' = [Namespace service, ServiceName service, FormatInt (sint port)]"
    by blast
  with assms True show ?thesis
    by (auto simp: ingressIteration_def AskForStaticValue_def ReadString_def emit_def serviceLoop_iff
          Let_def CreateIngress_def called_def Atoi_port)
  qed
qed

text \<open>
  C4. Single strategy: when the operator asks for ingress, chooses \<^verbatim>\<open>single\<close> and enters a
  domain, every ingress-creation request made in the rest of the run carries that domain,
  unchanged, however many services are mapped. Multiple strategy: a pass of the loop
  (\<^verbatim>\<open>singleDomain\<close> false) that finds the selection asks for a domain right after the
  selection, whatever the domain of the pass before was, and a request made in this pass
  carries the domain just entered (there is such a request whenever no namespace and no
  name contains a colon); so the same service selected twice gets the two domains entered.
\<close>

theorem domain_strategy:
  "(stdin w = answer # ''single'' # d # rest \<and> answer \<in> set posResponses \<longrightarrow>
      carries d w (snd (stepConfigureIngress p w))) \<and>
   (stdin w = choice # d # rest \<and> choice \<noteq> ''none'' \<and> choice \<in> set (rendered items) \<longrightarrow>
      (\<exists>evs. trace (snd (ingressIteration p items False prev w))
                = trace w @ Prompt askService # Prompt askDomain # evs \<and>
             (ingress_domains evs = [] \<or> ingress_domains evs = [d]) \<and>
             (no_colon items \<longrightarrow> ingress_domains evs = [d])) \<and>
      stdin (snd (ingressIteration p items False prev w)) = rest)"
  using stepConfigureIngress_single [of w answer d rest p]
        ingressIteration_multiple [of w choice d rest items p prev]
  by blast

theorem domain_strategy_witness:
  "carries ''foo.ngrok.app'' single_run (snd (stepConfigureIngress ''minikube'' single_run)) \<and>
   ingress_domains (trace (snd (stepConfigureIngress ''minikube'' single_run)))
     = [''foo.ngrok.app'', ''foo.ngrok.app''] \<and>
   (\<exists>evs. trace (snd (ingressIteration ''minikube'' [dns, web] False [] multiple_run))
             = trace multiple_run @ Prompt askService # Prompt askDomain # evs \<and>
          ingress_domains evs = [''a.ngrok.app'']) \<and>
   ingress_domains (trace (snd (AddIngressLoop ''minikube'' [dns, web] False [] multiple_run)))
     = [''a.ngrok.app'', ''b.ngrok.app'']"
proof -
  have a: "stdin single_run = ''y'' # ''single'' # ''foo.ngrok.app'' #
             [''n'', ''y'', ''kube-system:dns:53'', ''default:web:80'', ''none''] \<and>
           ''y'' \<in> set posResponses"
    by (simp add: single_run_def typing_def posResponses_def)
  have b: "stdin multiple_run = ''kube-system:dns:53'' # ''a.ngrok.app'' #
             [''kube-system:dns:53'', ''b.ngrok.app'', ''none''] \<and>
           ''kube-system:dns:53'' \<noteq> ''none'' \<and> ''kube-system:dns:53'' \<in> set (rendered [dns, web])"
    by (simp add: multiple_run_def typing_def rendered_eval)
  have c: "no_colon [dns, web]"
    by (simp add: no_colon_def service_fields)
  have d: "ingress_domains (trace (snd (stepConfigureIngress ''minikube'' single_run)))
     = [''foo.ngrok.app'', ''foo.ngrok.app'']"
    by (simp add: stepConfigureIngress_def AskForYesNoConfirmation.simps AskForChoice.simps
          AskForSingleOrMultipleDomainChoice_def posResponses_def negResponses_def
          containsString_def posString_def AddIngressToServices_def ListAllServices_def
          AddIngressLoop.simps ingressIteration_def AskForStaticValue_def ReadString_def emit_def
          single_run_def typing_def blank_def serviceLoop_iff rendered_eval Atoi_eval
          CreateIngress_def next_fault_def called_def Let_def)
  have e: "ingress_domains (trace (snd (AddIngressLoop ''minikube'' [dns, web] False [] multiple_run)))
     = [''a.ngrok.app'', ''b.ngrok.app'']"
    by (simp add: AddIngressLoop.simps ingressIteration_def AskForStaticValue_def ReadString_def
          emit_def multiple_run_def typing_def blank_def serviceLoop_iff rendered_eval Atoi_eval
          CreateIngress_def next_fault_def called_def Let_def)
  from domain_strategy [where w = single_run and answer = "''y''" and d = "''foo.ngrok.app''"
           and p = "''minikube''", THEN conjunct1, rule_format, OF a]
       domain_strategy [where w = multiple_run and choice = "''kube-system:dns:53''"
           and d = "''a.ngrok.app''" and items = "[dns, web]" and prev = "[]" and p = "''minikube''",
           THEN conjunct2, rule_format, OF b]
       c d e
  show ?thesis by blast
qed

end
